theory Spec2Isabelle
  imports Complex_Main "HOL-Library.Sublist"
begin

section \<open>Strings as Python sees them\<close>

text \<open>
  A Python \<^verbatim>\<open>str\<close> is modelled as a \<^typ>\<open>string\<close>, one \<^typ>\<open>char\<close> per code
  point (code points below 256). \<^verbatim>\<open>str.split()\<close> and \<^verbatim>\<open>str.strip()\<close> with no
  argument work on the characters for which \<^verbatim>\<open>str.isspace\<close> holds: tab, line feed,
  vertical tab, form feed, carriage return, the separators 0x1c to 0x1f, space, 0x85 and
  0xa0.
\<close>

definition is_space :: "char \<Rightarrow> bool" where
  "is_space c = (of_char c \<in> {9, 10, 11, 12, 13, 28, 29, 30, 31, 32, 133, 160 :: nat})"

text \<open>\<^verbatim>\<open>text.split()\<close>: the maximal runs of non-whitespace characters, in order.
  The first argument is the word read so far.\<close>

fun split_from :: "string \<Rightarrow> string \<Rightarrow> string list" where
  "split_from cur [] = (if cur = [] then [] else [cur])"
| "split_from cur (c # cs) =
     (if is_space c
      then (if cur = [] then split_from [] cs else cur # split_from [] cs)
      else split_from (cur @ [c]) cs)"

definition split :: "string \<Rightarrow> string list" where
  "split text = split_from [] text"

text \<open>A word: what \<^verbatim>\<open>split\<close> returns, a non-empty run without whitespace.\<close>

definition is_word :: "string \<Rightarrow> bool" where
  "is_word w = (w \<noteq> [] \<and> (\<forall>c\<in>set w. \<not> is_space c))"

text \<open>\<^verbatim>\<open>" ".join(words)\<close>\<close>

fun join_sp :: "string list \<Rightarrow> string" where
  "join_sp [] = []"
| "join_sp [w] = w"
| "join_sp (w # ws) = w @ '' '' @ join_sp ws"

text \<open>\<^verbatim>\<open>s.strip()\<close>\<close>

definition strip :: "string \<Rightarrow> string" where
  "strip s = rev (dropWhile is_space (rev (dropWhile is_space s)))"


section \<open>Token budgeter: \<^verbatim>\<open>chunk_text\<close> and \<^verbatim>\<open>chunk_entries\<close>\<close>

text \<open>
  The tokenizer is the \<^verbatim>\<open>tiktoken\<close> encoding of the model; the code only ever uses
  the length of an encoding, so the parameter \<open>enc\<close> is the function
  \<^verbatim>\<open>lambda s: len(enc.encode(s))\<close>. \<^verbatim>\<open>max_tokens\<close> is a Python integer.

  The loop of \<^verbatim>\<open>chunk_text\<close> (lines 81 to 89 of \<^verbatim>\<open>disambiguation.py\<close>), with its
  three variables \<^verbatim>\<open>chunks\<close>, \<^verbatim>\<open>current_chunk\<close> and \<^verbatim>\<open>current_token_count\<close>, and
  the closing \<^verbatim>\<open>if current_chunk\<close> in the base case.
\<close>

fun chunk_text_loop ::
  "(string \<Rightarrow> nat) \<Rightarrow> int \<Rightarrow> string list \<Rightarrow> string list \<Rightarrow> int \<Rightarrow> string list \<Rightarrow> string list"
where
  "chunk_text_loop enc max_tokens chunks current_chunk current_token_count [] =
     (if current_chunk \<noteq> [] then chunks @ [join_sp current_chunk] else chunks)"
| "chunk_text_loop enc max_tokens chunks current_chunk current_token_count (word # words) =
     (let token_len = int (enc (word @ '' '')) in
      if current_token_count + token_len > max_tokens
      then chunk_text_loop enc max_tokens (chunks @ [join_sp current_chunk]) [word] token_len words
      else chunk_text_loop enc max_tokens chunks (current_chunk @ [word])
             (current_token_count + token_len) words)"

definition chunk_text :: "(string \<Rightarrow> nat) \<Rightarrow> string \<Rightarrow> int \<Rightarrow> string list" where
  "chunk_text enc text max_tokens = chunk_text_loop enc max_tokens [] [] 0 (split text)"

text \<open>
  The loop of the nested \<^verbatim>\<open>chunk_entries\<close> (lines 117 to 130). An entry is a
  dictionary; the loop only serialises it, so the entry type is left open and
  \<open>dumps\<close> stands for \<^verbatim>\<open>json.dumps(entry, ensure_ascii=False)\<close>.
\<close>

fun chunk_entries_loop ::
  "(string \<Rightarrow> nat) \<Rightarrow> ('e \<Rightarrow> string) \<Rightarrow> int \<Rightarrow> 'e list list \<Rightarrow> 'e list \<Rightarrow> int \<Rightarrow> 'e list
     \<Rightarrow> 'e list list"
where
  "chunk_entries_loop enc dumps max_tokens_per_chunk chunks current_chunk current_token_count [] =
     (if current_chunk \<noteq> [] then chunks @ [current_chunk] else chunks)"
| "chunk_entries_loop enc dumps max_tokens_per_chunk chunks current_chunk current_token_count
       (entry # entries) =
     (let entry_json = dumps entry;
          entry_tokens = int (enc entry_json) in
      if current_token_count + entry_tokens > max_tokens_per_chunk
      then chunk_entries_loop enc dumps max_tokens_per_chunk (chunks @ [current_chunk]) [entry]
             entry_tokens entries
      else chunk_entries_loop enc dumps max_tokens_per_chunk chunks (current_chunk @ [entry])
             (current_token_count + entry_tokens) entries)"

definition chunk_entries ::
  "(string \<Rightarrow> nat) \<Rightarrow> ('e \<Rightarrow> string) \<Rightarrow> int \<Rightarrow> 'e list \<Rightarrow> 'e list list" where
  "chunk_entries enc dumps max_tokens_per_chunk entries =
     chunk_entries_loop enc dumps max_tokens_per_chunk [] [] 0 entries"

text \<open>
  The running count the loops keep for a chunk is the sum of its items' counts. A chunk
  is within the bound when this count is at most the limit, or when it is one item that
  alone exceeds the limit.
\<close>

definition chunk_ok :: "(string \<Rightarrow> nat) \<Rightarrow> ('e \<Rightarrow> string) \<Rightarrow> int \<Rightarrow> 'e list \<Rightarrow> bool" where
  "chunk_ok enc dumps max_tokens c =
     ((\<Sum>e\<leftarrow>c. int (enc (dumps e))) \<le> max_tokens
      \<or> (case c of [e] \<Rightarrow> max_tokens < int (enc (dumps e)) | _ \<Rightarrow> False))"



section \<open>Exceptions and JSON values\<close>

text \<open>
  The exceptions the sources raise or catch. A function that can raise returns
  \<open>error + 'a\<close>, with \<open>Inl\<close> for the exception.
\<close>

datatype error =
    ValueError string
  | TypeError
  | StopIteration
  | IndexError
  | KeyError
  | AttributeError
  | JSONDecodeError
  | UnicodeDecodeError
  | OSError
  | RequestException
  | RetryError
  | Exception string

text \<open>
  What \<^verbatim>\<open>json.loads\<close> returns: \<^verbatim>\<open>None\<close>, a bool, a number, a string, a list or
  a dict (its items in insertion order, keys distinct). The parser itself belongs to the
  Python library and is a parameter \<open>loads\<close> of the functions that call it.
\<close>

datatype json =
    JNull
  | JBool bool
  | JNum rat
  | JStr string
  | JArr "json list"
  | JObj "(string \<times> json) list"

text \<open>Python truth value of such a value (\<^verbatim>\<open>if x:\<close>).\<close>

fun truthy :: "json \<Rightarrow> bool" where
  "truthy JNull = False"
| "truthy (JBool b) = b"
| "truthy (JNum r) = (r \<noteq> 0)"
| "truthy (JStr s) = (s \<noteq> [])"
| "truthy (JArr xs) = (xs \<noteq> [])"
| "truthy (JObj kvs) = (kvs \<noteq> [])"

text \<open>
  A dictionary whose order matters is an association list; \<^verbatim>\<open>d[k] = v\<close> replaces
  the value of an existing key in place and appends a new key at the end.
\<close>

fun dict_set :: "('k \<times> 'v) list \<Rightarrow> 'k \<Rightarrow> 'v \<Rightarrow> ('k \<times> 'v) list" where
  "dict_set [] k v = [(k, v)]"
| "dict_set ((k', v') # d) k v = (if k' = k then (k, v) # d else (k', v') # dict_set d k v)"


section \<open>Result parser: \<^verbatim>\<open>parse_result\<close>\<close>

text \<open>\<^verbatim>\<open>s.startswith(p)\<close>, returning what follows the prefix.\<close>

fun strip_prefix :: "string \<Rightarrow> string \<Rightarrow> string option" where
  "strip_prefix [] s = Some s"
| "strip_prefix (p # ps) [] = None"
| "strip_prefix (p # ps) (c # cs) = (if p = c then strip_prefix ps cs else None)"

text \<open>
  The first pattern of \<^verbatim>\<open>parse_result\<close> is
  \<^verbatim>\<open>```(?:json|python)?\s*(\{.*?\})\s*```\<close> with \<^verbatim>\<open>re.DOTALL\<close>.
  \<open>lazy_body\<close> is the part \<^verbatim>\<open>.*?\}\s*```\<close> after the opening brace: the lazy
  \<^verbatim>\<open>.*?\<close> stops at the first closing brace that is followed by optional
  whitespace and the closing fence. Its first argument is the group matched so far.
\<close>

fun lazy_body :: "string \<Rightarrow> string \<Rightarrow> string option" where
  "lazy_body acc [] = None"
| "lazy_body acc (c # cs) =
     (if c = CHR ''}'' \<and> strip_prefix ''```'' (dropWhile is_space cs) \<noteq> None
      then Some (acc @ [c])
      else lazy_body (acc @ [c]) cs)"

text \<open>
  A match of the whole pattern that starts at the head of the string: the fence, the
  optional tag (\<^verbatim>\<open>json\<close> is tried before \<^verbatim>\<open>python\<close>), whitespace, and the group.
\<close>

definition fence_at :: "string \<Rightarrow> string option" where
  "fence_at s =
     (case strip_prefix ''```'' s of
        None \<Rightarrow> None
      | Some r \<Rightarrow>
          (let r1 = (case strip_prefix ''json'' r of
                       Some x \<Rightarrow> x
                     | None \<Rightarrow> (case strip_prefix ''python'' r of Some x \<Rightarrow> x | None \<Rightarrow> r))
           in case dropWhile is_space r1 of
                [] \<Rightarrow> None
              | c # body \<Rightarrow> if c = CHR ''{'' then lazy_body [c] body else None))"

text \<open>\<^verbatim>\<open>re.search\<close>: the match at the leftmost start position; the result is group 1.\<close>

fun fence_search :: "string \<Rightarrow> string option" where
  "fence_search [] = None"
| "fence_search (c # cs) =
     (case fence_at (c # cs) of Some g \<Rightarrow> Some g | None \<Rightarrow> fence_search cs)"

text \<open>
  The fallback pattern \<^verbatim>\<open>(\{.*\})\<close> with \<^verbatim>\<open>re.DOTALL\<close>: greedy, from the first
  opening brace to the last closing brace after it.
\<close>

definition brace_search :: "string \<Rightarrow> string option" where
  "brace_search s =
     (case dropWhile (\<lambda>c. c \<noteq> CHR ''{'') s of
        [] \<Rightarrow> None
      | c # r \<Rightarrow>
          (let body = rev (dropWhile (\<lambda>c. c \<noteq> CHR ''}'') (rev r))
           in if body = [] then None else Some (c # body)))"

text \<open>
  The two warnings \<^verbatim>\<open>parse_result\<close> logs. The function returns them beside its
  result; the other log lines of the sources are left out of the model.
\<close>

datatype warning = No_JSON_object_found | Failed_to_parse_JSON error

text \<open>
  The \<^verbatim>\<open>try\<close> block at the end of \<^verbatim>\<open>parse_result\<close>: only
  \<^verbatim>\<open>json.JSONDecodeError\<close> is caught; the empty result is the empty dict.
\<close>

definition loads_or_empty ::
  "(string \<Rightarrow> error + json) \<Rightarrow> string \<Rightarrow> (error + json) \<times> warning list" where
  "loads_or_empty loads json_str =
     (case loads json_str of
        Inr v \<Rightarrow> (Inr v, [])
      | Inl JSONDecodeError \<Rightarrow> (Inr (JObj []), [Failed_to_parse_JSON JSONDecodeError])
      | Inl e \<Rightarrow> (Inl e, []))"

definition parse_result ::
  "(string \<Rightarrow> error + json) \<Rightarrow> string \<Rightarrow> (error + json) \<times> warning list" where
  "parse_result loads text =
     (case fence_search text of
        Some json_str \<Rightarrow> loads_or_empty loads json_str
      | None \<Rightarrow>
          (case brace_search text of
             Some json_str \<Rightarrow> loads_or_empty loads json_str
           | None \<Rightarrow> (Inr (JObj []), [No_JSON_object_found])))"

text \<open>
  The extraction order as the specification words it, for comparison: a fenced block
  tagged \<^verbatim>\<open>json\<close> or with no tag, otherwise the braces, otherwise the empty result.
\<close>

definition spec_fence_at :: "string \<Rightarrow> string option" where
  "spec_fence_at s =
     (case strip_prefix ''```'' s of
        None \<Rightarrow> None
      | Some r \<Rightarrow>
          (let r1 = (case strip_prefix ''json'' r of Some x \<Rightarrow> x | None \<Rightarrow> r)
           in case dropWhile is_space r1 of
                [] \<Rightarrow> None
              | c # body \<Rightarrow> if c = CHR ''{'' then lazy_body [c] body else None))"

fun spec_fence_search :: "string \<Rightarrow> string option" where
  "spec_fence_search [] = None"
| "spec_fence_search (c # cs) =
     (case spec_fence_at (c # cs) of Some g \<Rightarrow> Some g | None \<Rightarrow> spec_fence_search cs)"

definition spec_parse_result ::
  "(string \<Rightarrow> error + json) \<Rightarrow> string \<Rightarrow> (error + json) \<times> warning list" where
  "spec_parse_result loads text =
     (case spec_fence_search text of
        Some json_str \<Rightarrow> loads_or_empty loads json_str
      | None \<Rightarrow>
          (case brace_search text of
             Some json_str \<Rightarrow> loads_or_empty loads json_str
           | None \<Rightarrow> (Inr (JObj []), [No_JSON_object_found])))"

text \<open>
  What \<^verbatim>\<open>json.loads\<close> does on the strings of the examples below: two JSON
  objects, and anything else taken as not JSON.
\<close>

definition example_loads :: "string \<Rightarrow> error + json" where
  "example_loads s =
     (if s = ''{\"a\": 1}'' then Inr (JObj [(''a'', JNum 1)])
      else if s = ''{\"verdict\": \"Same\", \"confidence\": 0.9}''
      then Inr (JObj [(''verdict'', JStr ''Same''), (''confidence'', JNum (9 / 10))])
      else Inl JSONDecodeError)"

text \<open>
  The two shapes the patterns look for, stated on the text itself. A fenced candidate:
  three backquotes, an optional tag \<^verbatim>\<open>json\<close> or \<^verbatim>\<open>python\<close>, whitespace, the
  candidate from an opening to a closing brace, whitespace, three backquotes. The braced
  candidate: from the first opening brace of the text to its last closing brace.
\<close>

definition fenced :: "string \<Rightarrow> string \<Rightarrow> bool" where
  "fenced text c =
     (\<exists>pre tag ws1 body ws2 post.
        text = pre @ ''```'' @ tag @ ws1 @ c @ ws2 @ ''```'' @ post
        \<and> tag \<in> {[], ''json'', ''python''}
        \<and> (\<forall>x\<in>set ws1. is_space x) \<and> (\<forall>x\<in>set ws2. is_space x)
        \<and> c = ''{'' @ body @ ''}'')"

definition braced :: "string \<Rightarrow> string \<Rightarrow> bool" where
  "braced text c =
     (\<exists>pre body post.
        text = pre @ c @ post \<and> c = ''{'' @ body @ ''}''
        \<and> CHR ''{'' \<notin> set pre \<and> CHR ''}'' \<notin> set post)"


section \<open>Resumable ledger: \<^verbatim>\<open>load_solved_conflict_keys\<close>\<close>

text \<open>
  An element of the solved-key set. Python compares and hashes \<^verbatim>\<open>True\<close>, \<^verbatim>\<open>1\<close>
  and \<^verbatim>\<open>1.0\<close> as equal, so booleans and numbers share one constructor.
\<close>

datatype pykey = KStr string | KNum rat | KNone

text \<open>\<^verbatim>\<open>next(iter(entry))\<close>\<close>

fun next_iter :: "json \<Rightarrow> error + json" where
  "next_iter (JObj []) = Inl StopIteration"
| "next_iter (JObj ((k, v) # kvs)) = Inr (JStr k)"
| "next_iter (JArr []) = Inl StopIteration"
| "next_iter (JArr (x # xs)) = Inr x"
| "next_iter (JStr []) = Inl StopIteration"
| "next_iter (JStr (c # cs)) = Inr (JStr [c])"
| "next_iter JNull = Inl TypeError"
| "next_iter (JBool b) = Inl TypeError"
| "next_iter (JNum r) = Inl TypeError"

text \<open>\<^verbatim>\<open>solved_keys.add(key)\<close> hashes the key: lists and dicts are unhashable.\<close>

fun hash_key :: "json \<Rightarrow> error + pykey" where
  "hash_key (JStr s) = Inr (KStr s)"
| "hash_key (JNum r) = Inr (KNum r)"
| "hash_key (JBool b) = Inr (KNum (if b then 1 else 0))"
| "hash_key JNull = Inr KNone"
| "hash_key (JArr xs) = Inl TypeError"
| "hash_key (JObj kvs) = Inl TypeError"

text \<open>The body of the \<^verbatim>\<open>try\<close> for one line, up to the key that is added.\<close>

definition line_key :: "(string \<Rightarrow> error + json) \<Rightarrow> string \<Rightarrow> error + pykey" where
  "line_key loads line =
     (case loads line of
        Inl e \<Rightarrow> Inl e
      | Inr entry \<Rightarrow>
          (case next_iter entry of
             Inl e \<Rightarrow> Inl e
           | Inr key \<Rightarrow> hash_key key))"

text \<open>
  A file as \<^verbatim>\<open>open(path, 'r')\<close> and \<^verbatim>\<open>for line in f\<close> see it: the open can
  raise; then the lines are read and decoded in turn, and reading a line that cannot be
  decoded raises \<^verbatim>\<open>UnicodeDecodeError\<close>. The file system maps a path to the file
  there, \<open>None\<close> when \<^verbatim>\<open>os.path.exists\<close> is false.
\<close>

type_synonym ledger_file = "error + (error + string) list"

text \<open>
  The loop over the lines (lines 475 to 482). The read of the next line stands outside
  the \<^verbatim>\<open>try\<close>: an exception there ends the load. Inside it,
  \<^verbatim>\<open>except Exception\<close> logs a warning and goes on.
\<close>

fun load_lines ::
  "(string \<Rightarrow> error + json) \<Rightarrow> pykey set \<Rightarrow> (error + string) list \<Rightarrow> error + pykey set" where
  "load_lines loads solved_keys [] = Inr solved_keys"
| "load_lines loads solved_keys (Inl e # lines) = Inl e"
| "load_lines loads solved_keys (Inr line # lines) =
     (if strip line \<noteq> []
      then (case line_key loads line of
              Inr key \<Rightarrow> load_lines loads (insert key solved_keys) lines
            | Inl e \<Rightarrow> load_lines loads solved_keys lines)
      else load_lines loads solved_keys lines)"

definition load_solved_conflict_keys ::
  "(string \<Rightarrow> error + json) \<Rightarrow> (string \<Rightarrow> ledger_file option) \<Rightarrow> string \<Rightarrow> error + pykey set" where
  "load_solved_conflict_keys loads fs jsonl_path =
     (let solved_keys = {} in
      case fs jsonl_path of
        None \<Rightarrow> Inr solved_keys
      | Some (Inl e) \<Rightarrow> Inl e
      | Some (Inr lines) \<Rightarrow> load_lines loads solved_keys lines)"

text \<open>
  The set the specification describes: the first key of every non-blank line that parses
  to a JSON object.
\<close>

definition spec_first_keys :: "(string \<Rightarrow> error + json) \<Rightarrow> string list \<Rightarrow> pykey set" where
  "spec_first_keys loads lines =
     {k. \<exists>line s v rest. line \<in> set lines \<and> strip line \<noteq> []
           \<and> loads line = Inr (JObj ((s, v) # rest)) \<and> k = KStr s}"

text \<open>
  What \<^verbatim>\<open>json.loads\<close> does on the lines of the examples below: a ledger record, a
  line holding a JSON string, and anything else taken as not JSON.
\<close>

definition example_ledger_loads :: "string \<Rightarrow> error + json" where
  "example_ledger_loads s =
     (if s = ''{\"caseA\": {}}'' then Inr (JObj [(''caseA'', JObj [])])
      else if s = ''\"caseB\"'' then Inr (JStr ''caseB'')
      else Inl JSONDecodeError)"


section \<open>Benchmark inference: \<^verbatim>\<open>make_inferences\<close>\<close>

text \<open>
  The functions \<^verbatim>\<open>make_inferences\<close> calls that reach outside the process: the two
  oracle clients, the three writers, \<^verbatim>\<open>time.sleep\<close> and \<^verbatim>\<open>time.time\<close>. Each
  takes the state of the outside world \<open>'w\<close> and returns the new one, with its result
  or the exception it raised. \<open>'m\<close> is the type of a message list.
\<close>

record ('w, 'm) services =
  call_query_openrouter :: "'m \<Rightarrow> string \<Rightarrow> 'w \<Rightarrow> (error + string \<times> (string \<times> json) list) \<times> 'w"
  call_query_huggingface_new ::
    "'m \<Rightarrow> string \<Rightarrow> string \<Rightarrow> 'w \<Rightarrow> (error + string \<times> (string \<times> json) list) \<times> 'w"
  call_save_raw_results :: "string \<Rightarrow> string \<Rightarrow> 'w \<Rightarrow> (error + unit) \<times> 'w"
  call_save_inference_stats :: "(string \<times> json) list \<Rightarrow> string \<Rightarrow> 'w \<Rightarrow> (error + unit) \<times> 'w"
  call_save_result :: "string \<Rightarrow> json \<Rightarrow> string \<Rightarrow> 'w \<Rightarrow> (error + unit) \<times> 'w"
  call_sleep :: "rat \<Rightarrow> 'w \<Rightarrow> 'w"
  call_time :: "'w \<Rightarrow> rat \<times> 'w"

definition REQUESTS_PER_MINUTE :: rat where
  "REQUESTS_PER_MINUTE = 20"

definition DELAY_BETWEEN_REQUESTS :: rat where
  "DELAY_BETWEEN_REQUESTS = 60 / REQUESTS_PER_MINUTE"

text \<open>\<^verbatim>\<open>key.replace(" ", "_").replace("/", "_")\<close>\<close>

definition key_transformed :: "string \<Rightarrow> string" where
  "key_transformed key =
     map (\<lambda>c. if c = CHR ''/'' then CHR ''_'' else c)
       (map (\<lambda>c. if c = CHR '' '' then CHR ''_'' else c) key)"

text \<open>
  The body of the loop for a key that is not skipped (lines 49 to 89): the pause, the
  oracle call, the three writes with the parse between them. Every statement is inside
  the \<^verbatim>\<open>try\<close>, whose handler logs and raises again, so the first exception ends the
  body and is its result.
\<close>

definition process_conflict ::
  "('w, 'm) services \<Rightarrow> (string \<Rightarrow> error + json) \<Rightarrow> string \<Rightarrow> string \<Rightarrow> string \<Rightarrow> string
     \<Rightarrow> string \<Rightarrow> 'm \<Rightarrow> 'w \<Rightarrow> (error + unit) \<times> 'w" where
  "process_conflict svc loads model results_file_path raw_results_path provider key messages w =
     (let w1 = (if provider = ''openrouter'' then call_sleep svc DELAY_BETWEEN_REQUESTS w else w);
          (start_time, w2) = call_time svc w1;
          (answer, w3) =
            (if provider = ''openrouter''
             then call_query_openrouter svc messages model w2
             else call_query_huggingface_new svc messages model provider w2)
      in case answer of
           Inl e \<Rightarrow> (Inl e, w3)
         | Inr (result, meta) \<Rightarrow>
             (let (end_time, w4) = call_time svc w3;
                  total_time = end_time - start_time;
                  raw_result_path =
                    raw_results_path @ ''/raw_results_'' @ key_transformed key @ ''.json'';
                  (saved_raw, w5) = call_save_raw_results svc result raw_result_path w4
              in case saved_raw of
                   Inl e \<Rightarrow> (Inl e, w5)
                 | Inr _ \<Rightarrow>
                     (let meta_file_path =
                            raw_results_path @ ''/meta_'' @ key_transformed key @ ''.json'';
                          meta1 = dict_set meta ''total_time'' (JNum total_time);
                          meta2 = dict_set meta1 ''key'' (JStr key);
                          (saved_meta, w6) = call_save_inference_stats svc meta2 meta_file_path w5
                      in case saved_meta of
                           Inl e \<Rightarrow> (Inl e, w6)
                         | Inr _ \<Rightarrow>
                             (case fst (parse_result loads result) of
                                Inl e \<Rightarrow> (Inl e, w6)
                              | Inr parsed_result \<Rightarrow>
                                  call_save_result svc key parsed_result results_file_path w6))))"

text \<open>
  The outcome of a run: the exception that ended it, if any; the keys for which the
  oracle client was invoked, in order; and the outside world afterwards.
\<close>

record 'w run =
  outcome :: "error + unit"
  oracle_calls :: "string list"
  world :: 'w

text \<open>
  The loop over \<^verbatim>\<open>messages_dict\<close>, a dict from conflict key to message list. A key
  in the solved set is skipped by \<^verbatim>\<open>continue\<close>; for any other key the body runs, and
  its first effect after the pause is the oracle call, recorded in \<open>calls\<close>.
\<close>

fun make_inferences_loop ::
  "('w, 'm) services \<Rightarrow> (string \<Rightarrow> error + json) \<Rightarrow> string \<Rightarrow> string \<Rightarrow> string \<Rightarrow> string
     \<Rightarrow> pykey set \<Rightarrow> string list \<Rightarrow> (string \<times> 'm) list \<Rightarrow> 'w \<Rightarrow> 'w run" where
  "make_inferences_loop svc loads model results_file_path raw_results_path provider
       solved_conflicts_keys calls [] w =
     \<lparr>outcome = Inr (), oracle_calls = calls, world = w\<rparr>"
| "make_inferences_loop svc loads model results_file_path raw_results_path provider
       solved_conflicts_keys calls ((key, messages) # rest) w =
     (if KStr key \<in> solved_conflicts_keys
      then make_inferences_loop svc loads model results_file_path raw_results_path provider
             solved_conflicts_keys calls rest w
      else (case process_conflict svc loads model results_file_path raw_results_path provider
                   key messages w of
              (Inl e, w') \<Rightarrow> \<lparr>outcome = Inl e, oracle_calls = calls @ [key], world = w'\<rparr>
            | (Inr _, w') \<Rightarrow>
                make_inferences_loop svc loads model results_file_path raw_results_path provider
                  solved_conflicts_keys (calls @ [key]) rest w'))"

text \<open>
  \<^verbatim>\<open>make_inferences\<close>: the ledger is loaded before the loop and outside any
  \<^verbatim>\<open>try\<close>, so an exception of the load ends the run before any key is looked at.
\<close>

definition make_inferences ::
  "('w, 'm) services \<Rightarrow> (string \<Rightarrow> error + json) \<Rightarrow> (string \<Rightarrow> ledger_file option)
     \<Rightarrow> (string \<times> 'm) list \<Rightarrow> string \<Rightarrow> string \<Rightarrow> string \<Rightarrow> string \<Rightarrow> 'w \<Rightarrow> 'w run" where
  "make_inferences svc loads fs messages_dict model results_file_path raw_results_path provider w =
     (case load_solved_conflict_keys loads fs results_file_path of
        Inl e \<Rightarrow> \<lparr>outcome = Inl e, oracle_calls = [], world = w\<rparr>
      | Inr solved_conflicts_keys \<Rightarrow>
          make_inferences_loop svc loads model results_file_path raw_results_path provider
            solved_conflicts_keys [] messages_dict w)"

text \<open>
  Services for the examples: an oracle whose answer holds no JSON, writers that
  succeed, a clock that stands still, over a world that counts the oracle calls.
\<close>

definition example_services :: "(nat, string list) services" where
  "example_services =
     \<lparr>call_query_openrouter = (\<lambda>messages model w. (Inr (''no json here'', []), Suc w)),
      call_query_huggingface_new = (\<lambda>messages model provider w. (Inr (''no json here'', []), Suc w)),
      call_save_raw_results = (\<lambda>result path w. (Inr (), w)),
      call_save_inference_stats = (\<lambda>meta path w. (Inr (), w)),
      call_save_result = (\<lambda>key parsed path w. (Inr (), w)),
      call_sleep = (\<lambda>d w. w),
      call_time = (\<lambda>w. (0, w))\<rparr>"


section \<open>Conflict assembler: \<^verbatim>\<open>build_full_conflict\<close>\<close>

text \<open>\<^verbatim>\<open>needle in haystack\<close> on strings.\<close>

fun str_in :: "string \<Rightarrow> string \<Rightarrow> bool" where
  "str_in p [] = (p = [])"
| "str_in p (c # cs) = (strip_prefix p (c # cs) \<noteq> None \<or> str_in p cs)"

text \<open>
  A registry entry is a dict with identity and descriptive fields and the two reference
  lists \<^verbatim>\<open>webpage\<close> (URLs) and \<^verbatim>\<open>repository\<close> (dicts with \<^verbatim>\<open>kind\<close> and
  \<^verbatim>\<open>url\<close>). A key that may be missing is an option, \<open>None\<close> when the dict has
  no such key; the other fields are kept as they are in \<open>entry_fields\<close>.
\<close>

record repo_ref =
  repo_kind :: "string option"
  repo_url :: "string option"

record 'a entry =
  entry_webpage :: "string list option"
  entry_repository :: "repo_ref list option"
  entry_fields :: 'a

record 'a conflict =
  c_disconnected :: "'a entry list"
  c_remaining :: "'a entry list"

text \<open>
  What \<^verbatim>\<open>enrich_link\<close> returns, the dict \<^verbatim>\<open>new_link\<close>: a field is \<open>None\<close>
  when the key is missing or holds \<^verbatim>\<open>None\<close>, which the readers of the dict (all
  through \<^verbatim>\<open>.get\<close> and a truth test) do not tell apart.
\<close>

record evidence =
  ev_url :: string
  ev_repo_metadata :: "json option"
  ev_readme_content :: "string option"
  ev_project_metadata :: "json option"
  ev_content :: "string option"

text \<open>A value stored under a label of \<^verbatim>\<open>webpage_contents[url]\<close>.\<close>

datatype body = Chunks "string list" | Metadata json

type_synonym contents = "(string \<times> (string \<times> body) list) list"

record 'a full_conflict =
  fc_disconnected :: "'a entry list"
  fc_remaining :: "'a entry list"
  fc_webpage_contents :: contents

text \<open>
  The loop over \<^verbatim>\<open>repos\<close> in \<^verbatim>\<open>strip_content_fields\<close> (lines 384 to 392), on
  the two sets \<^verbatim>\<open>all_webpages\<close> and \<^verbatim>\<open>all_repos\<close> of the enclosing function.
  \<^verbatim>\<open>repo.get('url', '')\<close> is the empty string for a missing key.
\<close>

fun collect_repos :: "repo_ref list \<Rightarrow> string set \<times> string set \<Rightarrow> string set \<times> string set" where
  "collect_repos [] (all_webpages, all_repos) = (all_webpages, all_repos)"
| "collect_repos (repo # repos) (all_webpages, all_repos) =
     (let u = (case repo_url repo of None \<Rightarrow> [] | Some x \<Rightarrow> x) in
      if repo_kind repo = Some ''github'' \<and> str_in ''github.com'' u
      then collect_repos repos (all_webpages, insert u all_repos)
      else if repo_kind repo = Some ''bitbucket'' \<and> str_in ''bitbucket.com'' u
      then collect_repos repos (all_webpages, insert u all_repos)
      else if repo_kind repo = Some ''gitlab'' \<and> str_in ''gitlab.com'' u
      then collect_repos repos (all_webpages, insert u all_repos)
      else collect_repos repos (insert u all_webpages, all_repos))"

text \<open>
  \<^verbatim>\<open>strip_content_fields\<close>: the entry is copied, its references are collected, and
  the copy is returned. No statement of the function removes a key from the copy.
\<close>

definition strip_content_fields ::
  "'a entry \<Rightarrow> string set \<times> string set \<Rightarrow> 'a entry \<times> string set \<times> string set" where
  "strip_content_fields e sets =
     (let copy = e;
          webpages = (case entry_webpage copy of None \<Rightarrow> [] | Some x \<Rightarrow> x);
          repos = (case entry_repository copy of None \<Rightarrow> [] | Some x \<Rightarrow> x);
          all_webpages = fst sets \<union> set webpages
      in (copy, collect_repos repos (all_webpages, snd sets)))"

text \<open>The two loops that fill \<^verbatim>\<open>new_conflict["disconnected"]\<close> and
  \<^verbatim>\<open>new_conflict["remaining"]\<close> (lines 396 to 400).\<close>

fun strip_all ::
  "'a entry list \<Rightarrow> string set \<times> string set \<Rightarrow> 'a entry list \<times> string set \<times> string set" where
  "strip_all [] sets = ([], sets)"
| "strip_all (e # es) sets =
     (let (copy, sets1) = strip_content_fields e sets;
          (copies, sets2) = strip_all es sets1
      in (copy # copies, sets2))"

text \<open>
  What is stored under one URL (lines 352 to 365): the inner dict starts empty and gets up
  to four labels, in this order. Text is chunked by \<^verbatim>\<open>chunk_text\<close>.
\<close>

definition url_contents :: "(string \<Rightarrow> nat) \<Rightarrow> int \<Rightarrow> evidence \<Rightarrow> (string \<times> body) list" where
  "url_contents enc max_tokens enriched =
     (let d0 = [];
          d1 = (case ev_content enriched of
                  Some x \<Rightarrow> if x \<noteq> [] then dict_set d0 ''Content'' (Chunks (chunk_text enc x max_tokens))
                           else d0
                | None \<Rightarrow> d0);
          d2 = (case ev_readme_content enriched of
                  Some x \<Rightarrow> if x \<noteq> []
                           then dict_set d1 ''README content'' (Chunks (chunk_text enc x max_tokens))
                           else d1
                | None \<Rightarrow> d1);
          d3 = (case ev_repo_metadata enriched of
                  Some x \<Rightarrow> if truthy x then dict_set d2 ''Repository metadata'' (Metadata x) else d2
                | None \<Rightarrow> d2);
          d4 = (case ev_project_metadata enriched of
                  Some x \<Rightarrow> if truthy x then dict_set d3 ''Project metadata'' (Metadata x) else d3
                | None \<Rightarrow> d3)
      in d4)"

text \<open>
  The loop of \<^verbatim>\<open>enrich_and_collect_content\<close> (lines 345 to 365). The enricher is a
  parameter: it reaches the network, so it takes and returns the outside world, and it
  may raise. \<open>calls\<close> lists the URLs it has been invoked on, in order. An exception of
  the enricher is not caught here and ends the loop.
\<close>

fun enrich_and_collect_loop ::
  "(string \<Rightarrow> 'w \<Rightarrow> (error + evidence) \<times> 'w) \<Rightarrow> (string \<Rightarrow> nat) \<Rightarrow> int \<Rightarrow> contents \<Rightarrow> string set
     \<Rightarrow> string list \<Rightarrow> string list \<Rightarrow> 'w \<Rightarrow> (error + contents) \<times> string list \<times> 'w" where
  "enrich_and_collect_loop enrich enc max_tokens contents seen calls [] w =
     (Inr contents, calls, w)"
| "enrich_and_collect_loop enrich enc max_tokens contents seen calls (u # url_list) w =
     (if u \<in> seen \<or> u = []
      then enrich_and_collect_loop enrich enc max_tokens contents seen calls url_list w
      else (case enrich u w of
              (Inl e, w') \<Rightarrow> (Inl e, calls @ [u], w')
            | (Inr enriched, w') \<Rightarrow>
                enrich_and_collect_loop enrich enc max_tokens
                  (dict_set contents u (url_contents enc max_tokens enriched))
                  (insert u seen) (calls @ [u]) url_list w'))"

definition enrich_and_collect_content ::
  "(string \<Rightarrow> 'w \<Rightarrow> (error + evidence) \<times> 'w) \<Rightarrow> (string \<Rightarrow> nat) \<Rightarrow> int \<Rightarrow> string list \<Rightarrow> 'w
     \<Rightarrow> (error + contents) \<times> string list \<times> 'w" where
  "enrich_and_collect_content enrich enc max_tokens url_list w =
     enrich_and_collect_loop enrich enc max_tokens [] {} [] url_list w"

text \<open>
  \<^verbatim>\<open>build_full_conflict\<close>. \<^verbatim>\<open>list(all_links)\<close> enumerates a set in an order
  Python does not specify; \<open>order\<close> is that enumeration. The result comes with the
  list of URLs the enricher was invoked on.
\<close>

definition build_full_conflict ::
  "(string \<Rightarrow> 'w \<Rightarrow> (error + evidence) \<times> 'w) \<Rightarrow> (string set \<Rightarrow> string list) \<Rightarrow> (string \<Rightarrow> nat)
     \<Rightarrow> 'a conflict \<Rightarrow> int \<Rightarrow> 'w \<Rightarrow> (error + 'a full_conflict) \<times> string list \<times> 'w" where
  "build_full_conflict enrich order enc conflict max_tokens w =
     (let (disconnected, sets1) = strip_all (c_disconnected conflict) ({}, {});
          (remaining, all_webpages, all_repos) = strip_all (c_remaining conflict) sets1;
          repos_and_webpages = all_webpages \<union> all_repos;
          all_links = repos_and_webpages;
          (result, calls, w') =
            enrich_and_collect_content enrich enc max_tokens (order all_links) w
      in case result of
           Inl e \<Rightarrow> (Inl e, calls, w')
         | Inr webpage_contents \<Rightarrow>
             (Inr \<lparr>fc_disconnected = disconnected, fc_remaining = remaining,
                   fc_webpage_contents = webpage_contents\<rparr>, calls, w'))"

text \<open>Every URL an entry list refers to, through either reference field.\<close>

definition entry_urls :: "'a entry \<Rightarrow> string set" where
  "entry_urls e =
     (case entry_webpage e of None \<Rightarrow> {} | Some ws \<Rightarrow> set ws)
     \<union> (case entry_repository e of
          None \<Rightarrow> {}
        | Some rs \<Rightarrow> (\<lambda>r. case repo_url r of None \<Rightarrow> [] | Some x \<Rightarrow> x) ` set rs)"

text \<open>
  What the specification says of the output partitions: the reference fields are gone
  from every entry.
\<close>

definition references_stripped :: "'a full_conflict \<Rightarrow> bool" where
  "references_stripped fc =
     (\<forall>e\<in>set (fc_disconnected fc @ fc_remaining fc).
        entry_webpage e = None \<and> entry_repository e = None)"

definition example_order :: "string set \<Rightarrow> string list" where
  "example_order S = (if S = {''https://github.com/a/b''} then [''https://github.com/a/b''] else [])"

text \<open>
  An enricher for the examples: every URL has a page with the same short text, and the
  world counts the calls.
\<close>

definition example_enrich :: "string \<Rightarrow> nat \<Rightarrow> (error + evidence) \<times> nat" where
  "example_enrich u w =
     (Inr \<lparr>ev_url = u, ev_repo_metadata = None, ev_readme_content = None,
           ev_project_metadata = None, ev_content = Some ''some text''\<rparr>, Suc w)"

text \<open>
  An example conflict: two entries that refer to the same GitHub repository, one of them
  also through its \<^verbatim>\<open>webpage\<close> list.
\<close>

definition example_conflict :: "string conflict" where
  "example_conflict =
     \<lparr>c_disconnected =
        [\<lparr>entry_webpage = Some [''https://github.com/a/b''],
          entry_repository = Some [\<lparr>repo_kind = Some ''github'', repo_url = Some ''https://github.com/a/b''\<rparr>],
          entry_fields = ''tool one''\<rparr>],
      c_remaining =
        [\<lparr>entry_webpage = Some [],
          entry_repository = Some [\<lparr>repo_kind = Some ''github'', repo_url = Some ''https://github.com/a/b''\<rparr>],
          entry_fields = ''tool two''\<rparr>]\<rparr>"


section \<open>Message builder: \<^verbatim>\<open>build_chat_messages_with_disconnected\<close>\<close>

record message =
  msg_role :: string
  msg_content :: string

text \<open>\<^verbatim>\<open>str(n)\<close> for a natural number, as an f-string prints it.\<close>

fun str_nat :: "nat \<Rightarrow> string" where
  "str_nat n =
     (if n < 10 then [char_of (48 + n)] else str_nat (n div 10) @ [char_of (48 + n mod 10)])"

declare str_nat.simps [simp del]

definition MAX_TOTAL_TOKENS :: nat where
  "MAX_TOTAL_TOKENS = 130000"

definition estimate_total_tokens :: "(string \<Rightarrow> nat) \<Rightarrow> message list \<Rightarrow> nat" where
  "estimate_total_tokens enc messages = (\<Sum>msg\<leftarrow>messages. enc (msg_content msg))"

text \<open>
  The argument \<^verbatim>\<open>conflict_data\<close> is a dict read with \<^verbatim>\<open>.get\<close> and \<^verbatim>\<open>in\<close>:
  each of its three keys may be missing.
\<close>

record 'a conflict_data =
  cd_remaining :: "'a entry list option"
  cd_disconnected :: "'a entry list option"
  cd_webpage_contents :: "contents option"

text \<open>
  One message per chunk, numbered from 1 by \<^verbatim>\<open>enumerate\<close> (lines 142 to 153).
  \<open>dumps_indent\<close> stands for \<^verbatim>\<open>json.dumps(chunk, indent=2, ensure_ascii=False)\<close>.
\<close>

fun part_messages :: "('e list \<Rightarrow> string) \<Rightarrow> string \<Rightarrow> nat \<Rightarrow> 'e list list \<Rightarrow> message list" where
  "part_messages dumps_indent preamble i [] = []"
| "part_messages dumps_indent preamble i (chunk # chunks) =
     \<lparr>msg_role = ''user'',
      msg_content = preamble @ '' - part '' @ str_nat (i + 1) @ '':\<newline>```json\<newline>''
        @ dumps_indent chunk @ ''\<newline>```''\<rparr>
     # part_messages dumps_indent preamble (i + 1) chunks"

text \<open>
  The generator \<^verbatim>\<open>chunk_dict\<close>: one message per URL and label. \<open>str_body\<close> stands
  for Python's \<^verbatim>\<open>str\<close> of the list of chunks or of the metadata dict.
\<close>

definition chunk_dict :: "(body \<Rightarrow> string) \<Rightarrow> contents \<Rightarrow> message list" where
  "chunk_dict str_body d =
     concat (map (\<lambda>(u, content).
        map (\<lambda>(label, b).
          \<lparr>msg_role = ''user'',
           msg_content = ''Content from '' @ u @ '':\<newline>```\<newline>'' @ label @ '':\<newline>''
             @ str_body b @ ''```''\<rparr>) content) d)"

definition final_instruction :: message where
  "final_instruction =
     \<lparr>msg_role = ''user'',
      msg_content = ''All parts have been sent. Please now analyze the entries and provide the output as specified. \<newline>\<newline>IMPORTANT: Return ONLY a valid Python dictionary with the following keys: 'verdict', 'explanation', 'confidence', and 'features'. Do NOT explanation, or extra commentary. This is a strict output constraint.''\<rparr>"

text \<open>The list \<^verbatim>\<open>messages\<close> as it stands before the budget check (lines 109 to 164).\<close>

definition chat_messages ::
  "(string \<Rightarrow> nat) \<Rightarrow> ('a entry \<Rightarrow> string) \<Rightarrow> ('a entry list \<Rightarrow> string) \<Rightarrow> (body \<Rightarrow> string) \<Rightarrow> string
     \<Rightarrow> 'a conflict_data \<Rightarrow> string \<Rightarrow> string \<Rightarrow> int \<Rightarrow> message list" where
  "chat_messages enc dumps dumps_indent str_body instruction_prompt conflict_data
       disconnected_preamble remaining_preamble max_tokens_per_chunk =
     (let messages0 = [\<lparr>msg_role = ''user'', msg_content = instruction_prompt\<rparr>];
          messages1 =
            (case cd_remaining conflict_data of
               Some (e # es) \<Rightarrow>
                 messages0 @ part_messages dumps_indent remaining_preamble 0
                   (chunk_entries enc dumps max_tokens_per_chunk (e # es))
             | _ \<Rightarrow> messages0);
          messages2 =
            (case cd_disconnected conflict_data of
               Some (e # es) \<Rightarrow>
                 messages1 @ part_messages dumps_indent disconnected_preamble 0
                   (chunk_entries enc dumps max_tokens_per_chunk (e # es))
             | _ \<Rightarrow> messages1);
          messages3 =
            (case cd_webpage_contents conflict_data of
               Some d \<Rightarrow> messages2 @ chunk_dict str_body d
             | None \<Rightarrow> messages2)
      in messages3 @ [final_instruction])"

text \<open>The token budget check (lines 167 to 172).\<close>

definition build_chat_messages_with_disconnected ::
  "(string \<Rightarrow> nat) \<Rightarrow> ('a entry \<Rightarrow> string) \<Rightarrow> ('a entry list \<Rightarrow> string) \<Rightarrow> (body \<Rightarrow> string) \<Rightarrow> string
     \<Rightarrow> 'a conflict_data \<Rightarrow> string \<Rightarrow> string \<Rightarrow> int \<Rightarrow> error + message list" where
  "build_chat_messages_with_disconnected enc dumps dumps_indent str_body instruction_prompt
       conflict_data disconnected_preamble remaining_preamble max_tokens_per_chunk =
     (let messages = chat_messages enc dumps dumps_indent str_body instruction_prompt
            conflict_data disconnected_preamble remaining_preamble max_tokens_per_chunk;
          total_tokens = estimate_total_tokens enc messages
      in if total_tokens > MAX_TOTAL_TOKENS
         then Inl (ValueError (''Prompt too long: '' @ str_nat total_tokens
                @ '' tokens. Limit is '' @ str_nat MAX_TOTAL_TOKENS @ ''.''))
         else Inr messages)"


section \<open>Preparing the messages file: \<^verbatim>\<open>prepare_messages_file\<close>\<close>

text \<open>\<^verbatim>\<open>sep.join(parts)\<close>\<close>

fun str_join :: "string \<Rightarrow> string list \<Rightarrow> string" where
  "str_join sep [] = []"
| "str_join sep [x] = x"
| "str_join sep (x # xs) = x @ sep @ str_join sep xs"

text \<open>
  \<^verbatim>\<open>flatten_messages_to_prompt\<close>; \<open>capitalize\<close> stands for \<^verbatim>\<open>str.capitalize\<close>,
  used for a role without a tag.
\<close>

definition role_tags :: "(string \<times> string) list" where
  "role_tags = [(''system'', ''### System''), (''user'', ''### User''),
                (''assistant'', ''### Assistant'')]"

definition flatten_messages_to_prompt :: "(string \<Rightarrow> string) \<Rightarrow> message list \<Rightarrow> string" where
  "flatten_messages_to_prompt capitalize messages =
     (let prompt_parts =
            map (\<lambda>msg.
              (case map_of role_tags (msg_role msg) of
                 Some tag \<Rightarrow> tag @ ''\<newline>'' @ strip (msg_content msg) @ ''\<newline>''
               | None \<Rightarrow> ''### '' @ capitalize (msg_role msg) @ ''\<newline>''
                          @ strip (msg_content msg) @ ''\<newline>'')) messages
            @ [''### Assistant\<newline>'']
      in strip (str_join ''\<newline>'' prompt_parts))"

text \<open>What \<^verbatim>\<open>build_prompt_benchmarking\<close> returns: the message list, or one string.\<close>

datatype prompt = Chat "message list" | Flattened string

text \<open>
  The two rearrangements of the partitions in chat mode (lines 55 to 61); the second test
  reads what the first has written.
\<close>

definition arrange_partitions :: "'a full_conflict \<Rightarrow> 'a full_conflict" where
  "arrange_partitions data_dict =
     (let d1 = (if length (fc_disconnected data_dict) > 1 \<and> length (fc_remaining data_dict) = 0
                then data_dict\<lparr>fc_remaining := [fc_disconnected data_dict ! 1],
                               fc_disconnected := [fc_disconnected data_dict ! 0]\<rparr>
                else data_dict)
      in if length (fc_disconnected d1) = 0 \<and> length (fc_remaining d1) = 2
         then d1\<lparr>fc_disconnected := [fc_remaining d1 ! 0], fc_remaining := [fc_remaining d1 ! 1]\<rparr>
         else d1)"

definition as_conflict_data :: "'a full_conflict \<Rightarrow> 'a conflict_data" where
  "as_conflict_data data_dict =
     \<lparr>cd_remaining = Some (fc_remaining data_dict),
      cd_disconnected = Some (fc_disconnected data_dict),
      cd_webpage_contents = Some (fc_webpage_contents data_dict)\<rparr>"

text \<open>
  The tools the builders take from their environment: the tokenizer, the two
  serialisers, \<^verbatim>\<open>str\<close>, \<^verbatim>\<open>str.capitalize\<close>, and \<^verbatim>\<open>PROMPT_TEMPLATES\<close> as a map
  from template name to rendered template.
\<close>

record 'a tools =
  t_enc :: "string \<Rightarrow> nat"
  t_dumps :: "'a entry \<Rightarrow> string"
  t_dumps_indent :: "'a entry list \<Rightarrow> string"
  t_str_body :: "body \<Rightarrow> string"
  t_capitalize :: "string \<Rightarrow> string"
  t_templates :: "string \<Rightarrow> string option"

text \<open>
  \<^verbatim>\<open>build_prompt_benchmarking\<close>. A template that is missing raises \<^verbatim>\<open>KeyError\<close>;
  a prompt type other than the two falls off the end of the function and returns
  \<^verbatim>\<open>None\<close>. The chunk limit is the default 8000 of the builder.
\<close>

definition build_prompt_benchmarking ::
  "'a tools \<Rightarrow> 'a full_conflict \<Rightarrow> string \<Rightarrow> error + prompt option" where
  "build_prompt_benchmarking t data_dict prompt_type =
     (let disconnected_preamble = ''The first software metadata_entry'';
          remaining_preamble = ''The second software metadata_entry''
      in if prompt_type = ''chat''
         then (case t_templates t ''prompt_benchmarking_chat_style'' of
                 None \<Rightarrow> Inl KeyError
               | Some instruction_prompt \<Rightarrow>
                   (case build_chat_messages_with_disconnected (t_enc t) (t_dumps t)
                           (t_dumps_indent t) (t_str_body t) instruction_prompt
                           (as_conflict_data (arrange_partitions data_dict))
                           disconnected_preamble remaining_preamble 8000 of
                      Inl e \<Rightarrow> Inl e
                    | Inr messages \<Rightarrow> Inr (Some (Chat messages))))
         else if prompt_type = ''flattened''
         then (case t_templates t ''prompt_benchmarking_flattened_style'' of
                 None \<Rightarrow> Inl KeyError
               | Some instruction_prompt \<Rightarrow>
                   (case build_chat_messages_with_disconnected (t_enc t) (t_dumps t)
                           (t_dumps_indent t) (t_str_body t) instruction_prompt
                           (as_conflict_data data_dict)
                           disconnected_preamble remaining_preamble 8000 of
                      Inl e \<Rightarrow> Inl e
                    | Inr messages \<Rightarrow>
                        Inr (Some (Flattened (flatten_messages_to_prompt (t_capitalize t) messages)))))
         else Inr None)"

text \<open>
  The \<^verbatim>\<open>try\<close> body of \<^verbatim>\<open>prepare_messages_file\<close> for one key (lines 90 to 97):
  assemble, build, write the record \<^verbatim>\<open>{key: messages}\<close> to the messages file. The
  handler logs and raises again. \<^verbatim>\<open>len(messages)\<close> raises \<^verbatim>\<open>TypeError\<close> on
  \<^verbatim>\<open>None\<close>. \<open>writer\<close> stands for \<^verbatim>\<open>write_to_results_file\<close>, which catches its own
  exceptions. The second component lists the URLs enriched.
\<close>

definition prepare_conflict ::
  "'a tools \<Rightarrow> (string \<Rightarrow> 'w \<Rightarrow> (error + evidence) \<times> 'w) \<Rightarrow> (string set \<Rightarrow> string list)
     \<Rightarrow> (string \<times> prompt \<Rightarrow> string \<Rightarrow> 'w \<Rightarrow> 'w) \<Rightarrow> string \<Rightarrow> string \<Rightarrow> string \<Rightarrow> 'a conflict \<Rightarrow> 'w
     \<Rightarrow> (error + unit) \<times> string list \<times> 'w" where
  "prepare_conflict t enrich order writer messages_file_path prompt_type key c w =
     (case build_full_conflict enrich order (t_enc t) c 8000 w of
        (Inl e, calls, w1) \<Rightarrow> (Inl e, calls, w1)
      | (Inr full_conflict, calls, w1) \<Rightarrow>
          (case build_prompt_benchmarking t full_conflict prompt_type of
             Inl e \<Rightarrow> (Inl e, calls, w1)
           | Inr None \<Rightarrow> (Inl TypeError, calls, w1)
           | Inr (Some messages) \<Rightarrow>
               (Inr (), calls, writer (key, messages) messages_file_path w1)))"

text \<open>The loop of \<^verbatim>\<open>prepare_messages_file\<close> over the conflicts; the first
  exception ends it.\<close>

fun prepare_messages_file ::
  "'a tools \<Rightarrow> (string \<Rightarrow> 'w \<Rightarrow> (error + evidence) \<times> 'w) \<Rightarrow> (string set \<Rightarrow> string list)
     \<Rightarrow> (string \<times> prompt \<Rightarrow> string \<Rightarrow> 'w \<Rightarrow> 'w) \<Rightarrow> string \<Rightarrow> string \<Rightarrow> (string \<times> 'a conflict) list
     \<Rightarrow> 'w \<Rightarrow> (error + unit) \<times> 'w" where
  "prepare_messages_file t enrich order writer messages_file_path prompt_type [] w = (Inr (), w)"
| "prepare_messages_file t enrich order writer messages_file_path prompt_type ((key, c) # conflicts) w =
     (case prepare_conflict t enrich order writer messages_file_path prompt_type key c w of
        (Inl e, calls, w') \<Rightarrow> (Inl e, w')
      | (Inr _, calls, w') \<Rightarrow>
          prepare_messages_file t enrich order writer messages_file_path prompt_type conflicts w')"

text \<open>
  Tools for the examples: a tokenizer that counts 70000 tokens for any text, so that two
  messages exceed the ceiling; the serialisers print the descriptive field of an entry.
\<close>

definition heavy_tools :: "string tools" where
  "heavy_tools =
     \<lparr>t_enc = (\<lambda>s. 70000), t_dumps = entry_fields,
      t_dumps_indent = (\<lambda>es. concat (map entry_fields es)),
      t_str_body = (\<lambda>b. ''...''), t_capitalize = id,
      t_templates = (\<lambda>name. Some ''Compare the entries.'')\<rparr>"

text \<open>A messages file for the examples: the world is the list of records written.\<close>

definition example_write :: "string \<times> prompt \<Rightarrow> string \<Rightarrow> (string \<times> prompt) list \<Rightarrow> (string \<times> prompt) list" where
  "example_write r path file = file @ [r]"

definition example_page :: "string \<Rightarrow> (string \<times> prompt) list \<Rightarrow> (error + evidence) \<times> (string \<times> prompt) list" where
  "example_page u w =
     (Inr \<lparr>ev_url = u, ev_repo_metadata = None, ev_readme_content = None,
           ev_project_metadata = None, ev_content = Some ''some text''\<rparr>, w)"


section \<open>Link enricher: \<^verbatim>\<open>enrich_link\<close>\<close>

text \<open>\<^verbatim>\<open>s.split(sep)\<close> for a one-character separator: empty fields are kept.\<close>

fun split_char_from :: "char \<Rightarrow> string \<Rightarrow> string \<Rightarrow> string list" where
  "split_char_from sep cur [] = [cur]"
| "split_char_from sep cur (c # cs) =
     (if c = sep then cur # split_char_from sep [] cs else split_char_from sep (cur @ [c]) cs)"

definition split_char :: "char \<Rightarrow> string \<Rightarrow> string list" where
  "split_char sep s = split_char_from sep [] s"

text \<open>
  The pieces of \<^verbatim>\<open>s.split(sep)\<close> the code reads for a longer separator: what follows
  the first occurrence of \<open>sep\<close>, and what precedes the first occurrence.
\<close>

fun after_sep :: "string \<Rightarrow> string \<Rightarrow> string option" where
  "after_sep sep [] = strip_prefix sep []"
| "after_sep sep (c # cs) =
     (case strip_prefix sep (c # cs) of Some r \<Rightarrow> Some r | None \<Rightarrow> after_sep sep cs)"

fun before_sep :: "string \<Rightarrow> string \<Rightarrow> string" where
  "before_sep sep [] = []"
| "before_sep sep (c # cs) =
     (if strip_prefix sep (c # cs) \<noteq> None then [] else c # before_sep sep cs)"

text \<open>\<^verbatim>\<open>[^/]+\<close> at the head of a string: the longest run without a slash, and the rest.\<close>

definition segment :: "string \<Rightarrow> (string \<times> string) option" where
  "segment s =
     (let a = takeWhile (\<lambda>c. c \<noteq> CHR ''/'') s
      in if a = [] then None else Some (a, dropWhile (\<lambda>c. c \<noteq> CHR ''/'') s))"

text \<open>\<^verbatim>\<open>([^/]+/[^/]+)\<close> and \<^verbatim>\<open>([^/]+)/([^/]+)\<close> at the head of a string.\<close>

definition two_segments :: "string \<Rightarrow> (string \<times> string) option" where
  "two_segments s =
     (case segment s of
        None \<Rightarrow> None
      | Some (a, r) \<Rightarrow>
          (case r of
             [] \<Rightarrow> None
           | c # r2 \<Rightarrow> (case segment r2 of None \<Rightarrow> None | Some (b, r3) \<Rightarrow> Some (a, b))))"

text \<open>\<^verbatim>\<open>https?://\<close> at the head of a string.\<close>

definition strip_scheme :: "string \<Rightarrow> string option" where
  "strip_scheme s =
     (case strip_prefix ''https://'' s of
        Some r \<Rightarrow> Some r
      | None \<Rightarrow> strip_prefix ''http://'' s)"

text \<open>
  \<^verbatim>\<open>re.search(r"https?://gitlab\.com/([^/]+/[^/]+)", repo_url)\<close>: the group of the
  leftmost match.
\<close>

definition gitlab_at :: "string \<Rightarrow> string option" where
  "gitlab_at s =
     (case strip_scheme s of
        None \<Rightarrow> None
      | Some r \<Rightarrow>
          (case strip_prefix ''gitlab.com/'' r of
             None \<Rightarrow> None
           | Some r1 \<Rightarrow>
               (case two_segments r1 of None \<Rightarrow> None | Some (a, b) \<Rightarrow> Some (a @ ''/'' @ b))))"

fun gitlab_search :: "string \<Rightarrow> string option" where
  "gitlab_search [] = None"
| "gitlab_search (c # cs) =
     (case gitlab_at (c # cs) of Some g \<Rightarrow> Some g | None \<Rightarrow> gitlab_search cs)"

text \<open>
  \<^verbatim>\<open>re.match(r"https?://bitbucket.org/([^/]+)/([^/]+)", link)\<close>, anchored at the
  start; the dot of the pattern stands for any character but a line feed.
\<close>

definition bitbucket_match :: "string \<Rightarrow> (string \<times> string) option" where
  "bitbucket_match s =
     (case strip_scheme s of
        None \<Rightarrow> None
      | Some r \<Rightarrow>
          (case strip_prefix ''bitbucket'' r of
             None \<Rightarrow> None
           | Some r1 \<Rightarrow>
               (case r1 of
                  [] \<Rightarrow> None
                | c # r2 \<Rightarrow>
                    if c = CHR 0x0A then None
                    else (case strip_prefix ''org/'' r2 of
                            None \<Rightarrow> None
                          | Some r3 \<Rightarrow> two_segments r3))))"

record response =
  status_code :: nat
  resp_text :: string

text \<open>
  The functions through which \<^verbatim>\<open>enrich_link\<close> reaches the network, the browser and
  the libraries. Each of the helpers of \<^verbatim>\<open>enrich_links.py\<close> listed here without an
  error in its result has its whole body in a \<^verbatim>\<open>try\<close> that catches
  \<^verbatim>\<open>Exception\<close> and returns \<^verbatim>\<open>None\<close>, \<^verbatim>\<open>False\<close> or an error dict.
  \<^verbatim>\<open>requests.get\<close>, \<^verbatim>\<open>response.json()\<close> and \<^verbatim>\<open>extract_main_text_from_html\<close>
  (which parses with a library and writes a file) can raise.
\<close>

record 'w web =
  get_redirect :: "string \<Rightarrow> 'w \<Rightarrow> string option \<times> 'w"
  request_github_metadata :: "string \<Rightarrow> string \<Rightarrow> 'w \<Rightarrow> json option \<times> 'w"
  request_github_readme :: "string \<Rightarrow> string \<Rightarrow> 'w \<Rightarrow> string option \<times> 'w"
  requests_get :: "string \<Rightarrow> 'w \<Rightarrow> (error + response) \<times> 'w"
  quote :: "string \<Rightarrow> string"
  response_json :: "string \<Rightarrow> error + json"
  get_gitlab_repo_readme :: "json \<Rightarrow> string \<Rightarrow> 'w \<Rightarrow> string option \<times> 'w"
  get_pypi_project_info :: "string \<Rightarrow> 'w \<Rightarrow> json option \<times> 'w"
  get_link_content :: "string \<Rightarrow> 'w \<Rightarrow> string option \<times> 'w"
  extract_sourceforge_project_info :: "string option \<Rightarrow> json"
  get_bitbucket_metadata :: "string option \<Rightarrow> string option \<Rightarrow> 'w \<Rightarrow> (string \<times> json) list \<times> 'w"
  get_bitbucket_readme ::
    "string option \<Rightarrow> string option \<Rightarrow> (string \<times> json) list \<Rightarrow> 'w \<Rightarrow> string option \<times> 'w"
  extract_main_text_from_html :: "string \<Rightarrow> 'w \<Rightarrow> (error + string) \<times> 'w"

text \<open>\<^verbatim>\<open>parse_gitlab_repo_url\<close>\<close>

definition parse_gitlab_repo_url :: "'w web \<Rightarrow> string \<Rightarrow> error + string" where
  "parse_gitlab_repo_url env url =
     (case gitlab_search url of
        None \<Rightarrow> Inl (ValueError ''Invalid GitLab repository URL.'')
      | Some namespace_repo \<Rightarrow> Inr (quote env namespace_repo))"

text \<open>\<^verbatim>\<open>get_gitlab_repo_metadata\<close>: nothing in it is inside a \<^verbatim>\<open>try\<close>.\<close>

definition get_gitlab_repo_metadata :: "'w web \<Rightarrow> string \<Rightarrow> 'w \<Rightarrow> (error + json) \<times> 'w" where
  "get_gitlab_repo_metadata env url w =
     (case parse_gitlab_repo_url env url of
        Inl e \<Rightarrow> (Inl e, w)
      | Inr encoded_project \<Rightarrow>
          (let api_url = ''https://gitlab.com/api/v4/projects/'' @ encoded_project
           in case requests_get env api_url w of
                (Inl e, w1) \<Rightarrow> (Inl e, w1)
              | (Inr r, w1) \<Rightarrow>
                  if status_code r \<noteq> 200
                  then (Inl (Exception (''Failed to get metadata. Status code: ''
                          @ str_nat (status_code r) @ '', Response: '' @ resp_text r)), w1)
                  else (response_json env (resp_text r), w1)))"

text \<open>\<^verbatim>\<open>metadata.get(key)\<close>: only a dict has the method.\<close>

fun json_get :: "json \<Rightarrow> string \<Rightarrow> error + json option" where
  "json_get (JObj kvs) k = Inr (map_of kvs k)"
| "json_get j k = Inl AttributeError"

definition blank_link :: "string \<Rightarrow> evidence" where
  "blank_link link =
     \<lparr>ev_url = link, ev_repo_metadata = None, ev_readme_content = None,
      ev_project_metadata = None, ev_content = None\<rparr>"

text \<open>
  The first chain of \<^verbatim>\<open>enrich_link\<close> (lines 437 to 468): GitHub, GitLab, PyPI. The
  result is the record so far and the flag \<^verbatim>\<open>processed\<close>. In the GitHub branch an
  \<^verbatim>\<open>IndexError\<close> of \<^verbatim>\<open>parts[3], parts[4]\<close> is caught and logged. The GitLab
  branch has no \<^verbatim>\<open>try\<close>.
\<close>

definition first_chain :: "'w web \<Rightarrow> string \<Rightarrow> evidence \<Rightarrow> 'w \<Rightarrow> (error + evidence \<times> bool) \<times> 'w" where
  "first_chain env link new_link w =
     (if str_in ''github.com'' link
      then (let parts = split_char CHR ''/'' link
            in if length parts \<le> 4 then (Inr (new_link, False), w)
               else (let owner = parts ! 3; repo_name = parts ! 4;
                         (m, w1) = request_github_metadata env owner repo_name w;
                         (r, w2) = request_github_readme env owner repo_name w1
                     in (Inr (new_link\<lparr>ev_repo_metadata := m, ev_readme_content := r\<rparr>, True), w2)))
      else if str_in ''gitlab.com'' link
      then (case get_gitlab_repo_metadata env link w of
              (Inl e, w1) \<Rightarrow> (Inl e, w1)
            | (Inr metadata, w1) \<Rightarrow>
                (let new_link1 = new_link\<lparr>ev_repo_metadata := Some metadata\<rparr>
                 in if truthy metadata
                    then (case json_get metadata ''readme_url'' of
                            Inl e \<Rightarrow> (Inl e, w1)
                          | Inr None \<Rightarrow> (Inr (new_link1, False), w1)
                          | Inr (Some readme_url) \<Rightarrow>
                              if truthy readme_url
                              then (let (r, w2) = get_gitlab_repo_readme env readme_url link w1
                                    in (Inr (new_link1\<lparr>ev_readme_content := r\<rparr>, True), w2))
                              else (Inr (new_link1, False), w1))
                    else (Inr (new_link1, False), w1)))
      else if str_in ''pypi.org/project/'' link
      then (case after_sep ''pypi.org/project/'' link of
              None \<Rightarrow> (Inl IndexError, w)
            | Some rest \<Rightarrow>
                (let package_name = before_sep ''/'' (before_sep ''pypi.org/project/'' rest);
                     (metadata, w1) = get_pypi_project_info env package_name w
                 in (Inr (new_link\<lparr>ev_project_metadata := metadata\<rparr>, True), w1)))
      else (Inr (new_link, False), w))"

text \<open>
  The second chain (lines 470 to 499), which starts with a fresh \<^verbatim>\<open>if\<close>:
  SourceForge, Bitbucket, the Bioconductor git host. The calls inside its two
  \<^verbatim>\<open>try\<close> blocks do not raise.
\<close>

definition second_chain :: "'w web \<Rightarrow> string \<Rightarrow> evidence \<Rightarrow> bool \<Rightarrow> 'w \<Rightarrow> (evidence \<times> bool) \<times> 'w" where
  "second_chain env link new_link processed w =
     (if str_in ''sourceforge.net/projects/'' link \<or> str_in ''sf.net/p/'' link
         \<or> str_in ''sourceforge.net/p/'' link
      then (let (content, w1) = get_link_content env link w;
                project_info = extract_sourceforge_project_info env content
            in ((new_link\<lparr>ev_project_metadata := Some project_info\<rparr>, True), w1))
      else if str_in ''bitbucket.org'' link
      then (let (user, repo) =
                  (case bitbucket_match link of
                     Some (u, r) \<Rightarrow> (Some u, Some r)
                   | None \<Rightarrow> (None, None));
                (metadata, w1) = get_bitbucket_metadata env user repo w;
                new_link1 = new_link\<lparr>ev_repo_metadata := Some (JObj metadata)\<rparr>
            in if metadata \<noteq> [] \<and> map_of metadata ''main_branch'' \<noteq> None
               then (let (r, w2) = get_bitbucket_readme env user repo metadata w1
                     in ((new_link1\<lparr>ev_readme_content := r\<rparr>, True), w2))
               else ((new_link1, True), w1))
      else if str_in ''git.bioconductor'' link
      then ((new_link\<lparr>ev_repo_metadata := Some (JObj [(''url'', JStr link)])\<rparr>, True), w)
      else ((new_link, processed), w))"

text \<open>The generic extraction at the end (lines 501 to 506), outside any \<^verbatim>\<open>try\<close>.\<close>

definition generic_content :: "'w web \<Rightarrow> string \<Rightarrow> evidence \<Rightarrow> 'w \<Rightarrow> (error + evidence) \<times> 'w" where
  "generic_content env link new_link w =
     (let (content, w1) = get_link_content env link w
      in case content of
           None \<Rightarrow> (Inr new_link, w1)
         | Some c \<Rightarrow>
             if c = [] then (Inr new_link, w1)
             else (case extract_main_text_from_html env c w1 of
                     (Inl e, w2) \<Rightarrow> (Inl e, w2)
                   | (Inr t, w2) \<Rightarrow> (Inr (new_link\<lparr>ev_content := Some t\<rparr>), w2)))"

definition enrich_link :: "'w web \<Rightarrow> string \<Rightarrow> 'w \<Rightarrow> (error + evidence) \<times> 'w" where
  "enrich_link env link0 w =
     (let new_link = blank_link link0;
          (redirected, w1) = get_redirect env link0 w
      in case redirected of
           None \<Rightarrow> (Inr new_link, w1)
         | Some link \<Rightarrow>
             if link = [] then (Inr new_link, w1)
             else (case first_chain env link new_link w1 of
                     (Inl e, w2) \<Rightarrow> (Inl e, w2)
                   | (Inr (new_link1, processed1), w2) \<Rightarrow>
                       (case second_chain env link new_link1 processed1 w2 of
                          ((new_link2, processed2), w3) \<Rightarrow>
                            if \<not> processed2 then generic_content env link new_link2 w3
                            else (Inr new_link2, w3))))"

text \<open>
  A web for the examples: no redirects, the GitLab API answers 404 with an empty body, no
  other source has anything; the world counts the requests to the GitLab API.
\<close>

definition example_web :: "nat web" where
  "example_web =
     \<lparr>get_redirect = (\<lambda>u w. (Some u, w)),
      request_github_metadata = (\<lambda>owner repo w. (None, w)),
      request_github_readme = (\<lambda>owner repo w. (None, w)),
      requests_get = (\<lambda>u w. (Inr \<lparr>status_code = 404, resp_text = []\<rparr>, Suc w)),
      quote = id,
      response_json = (\<lambda>s. Inl JSONDecodeError),
      get_gitlab_repo_readme = (\<lambda>readme_url u w. (None, w)),
      get_pypi_project_info = (\<lambda>name w. (None, w)),
      get_link_content = (\<lambda>u w. (None, w)),
      extract_sourceforge_project_info = (\<lambda>content. JObj [(''description'', JNull), (''sections'', JArr [])]),
      get_bitbucket_metadata = (\<lambda>user repo w. ([(''error'', JStr ''Failed to fetch metadata: 404'')], w)),
      get_bitbucket_readme = (\<lambda>user repo metadata w. (None, w)),
      extract_main_text_from_html = (\<lambda>html w. (Inr html, w))\<rparr>"


section \<open>Oracle client: \<^verbatim>\<open>query_openrouter\<close>, \<^verbatim>\<open>query_huggingface_new\<close>, \<^verbatim>\<open>query_huggingface\<close>\<close>

text \<open>
  What a call of an oracle client leaves behind: its result or exception, the number of
  times \<^verbatim>\<open>requests.post\<close> was called, the waits slept between attempts, and the
  outside world.
\<close>

record ('r, 'w) call =
  call_result :: "error + 'r"
  call_posts :: nat
  call_waits :: "rat list"
  call_world :: 'w

text \<open>
  The network as the clients see it: \<^verbatim>\<open>requests.post\<close> on a URL, a model name and
  the messages, which answers or raises; \<^verbatim>\<open>response.json()\<close>; \<^verbatim>\<open>time.sleep\<close>; and
  the two API keys read from the environment, \<open>None\<close> when the variable is not set.
\<close>

record ('m, 'w) net =
  requests_post :: "string \<Rightarrow> string \<Rightarrow> 'm \<Rightarrow> 'w \<Rightarrow> (error + response) \<times> 'w"
  body_json :: "string \<Rightarrow> error + json"
  net_sleep :: "rat \<Rightarrow> 'w \<Rightarrow> 'w"
  OR_API_KEY :: "string option"
  HF_API_KEY :: "string option"

text \<open>
  \<^verbatim>\<open>response.json()["choices"][0]["message"]["content"].strip()\<close>, \<open>None\<close> when a
  subscript or \<^verbatim>\<open>strip\<close> raises.
\<close>

definition chat_content :: "json \<Rightarrow> string option" where
  "chat_content j =
     (case j of
        JObj kvs \<Rightarrow>
          (case map_of kvs ''choices'' of
             Some (JArr (JObj ckvs # rest)) \<Rightarrow>
               (case map_of ckvs ''message'' of
                  Some (JObj mkvs) \<Rightarrow>
                    (case map_of mkvs ''content'' of Some (JStr x) \<Rightarrow> Some (strip x) | _ \<Rightarrow> None)
                | _ \<Rightarrow> None)
           | _ \<Rightarrow> None)
      | _ \<Rightarrow> None)"

text \<open>
  \<^verbatim>\<open>meta = response.json().get("usage", {})\<close> followed by
  \<^verbatim>\<open>meta['provider'] = value\<close>, \<open>None\<close> when the assignment raises because the
  usage is not a dict.
\<close>

definition usage_meta :: "json \<Rightarrow> json \<Rightarrow> (string \<times> json) list option" where
  "usage_meta j provider_value =
     (case j of
        JObj kvs \<Rightarrow>
          (case map_of kvs ''usage'' of
             None \<Rightarrow> Some (dict_set [] ''provider'' provider_value)
           | Some (JObj meta) \<Rightarrow> Some (dict_set meta ''provider'' provider_value)
           | Some other \<Rightarrow> None)
      | _ \<Rightarrow> None)"

text \<open>
  The part of both chat clients after the response has arrived with status 200 (lines
  228 to 240 and 261 to 274). The handler of the \<^verbatim>\<open>try\<close> logs
  \<^verbatim>\<open>response.json()\<close>: when the body is not JSON this call raises again, now
  outside any handler. \<open>provider_of\<close> gives the value stored under
  \<^verbatim>\<open>provider\<close>.
\<close>

definition read_answer ::
  "(string \<Rightarrow> error + json) \<Rightarrow> (json \<Rightarrow> json) \<Rightarrow> string \<Rightarrow> error + string \<times> (string \<times> json) list" where
  "read_answer parse provider_of body =
     (case parse body of
        Inl e \<Rightarrow> Inl e
      | Inr j \<Rightarrow>
          (case chat_content j of
             None \<Rightarrow> Inr ([], [])
           | Some content \<Rightarrow>
               (case usage_meta j (provider_of j) of
                  None \<Rightarrow> Inr ([], [])
                | Some meta \<Rightarrow> if content \<noteq> [] then Inr (content, meta) else Inr ([], []))))"

definition OR_API_URL :: string where
  "OR_API_URL = ''https://openrouter.ai/api/v1/chat/completions''"

definition HF_API_URL :: string where
  "HF_API_URL = ''https://api-inference.huggingface.co/models''"

text \<open>
  The body of \<^verbatim>\<open>query_openrouter\<close>, one attempt. The log line slices the API key,
  which raises \<^verbatim>\<open>TypeError\<close> when the key is not set. The result says whether
  \<^verbatim>\<open>requests.post\<close> was reached.
\<close>

definition query_openrouter_body ::
  "('m, 'w) net \<Rightarrow> 'm \<Rightarrow> string \<Rightarrow> 'w \<Rightarrow> (error + string \<times> (string \<times> json) list) \<times> bool \<times> 'w" where
  "query_openrouter_body nw messages model w =
     (case OR_API_KEY nw of
        None \<Rightarrow> (Inl TypeError, False, w)
      | Some k \<Rightarrow>
          (case requests_post nw OR_API_URL model messages w of
             (Inl e, w1) \<Rightarrow> (Inl e, True, w1)
           | (Inr r, w1) \<Rightarrow>
               if status_code r = 200
               then (read_answer (body_json nw)
                       (\<lambda>j. case j of
                              JObj kvs \<Rightarrow> (case map_of kvs ''provider'' of Some v \<Rightarrow> v | None \<Rightarrow> JStr [])
                            | _ \<Rightarrow> JStr [])
                       (resp_text r), True, w1)
               else (Inr ([], []), True, w1)))"

text \<open>
  The decorator \<^verbatim>\<open>@retry(stop=stop_after_attempt(3),
  wait=wait_exponential(multiplier=1, min=2, max=10))\<close> of the \<^verbatim>\<open>tenacity\<close>
  library, as its documentation describes it: an attempt that returns ends the call; an
  attempt that raises is repeated after the wait, and after the last attempt
  \<^verbatim>\<open>RetryError\<close> is raised. The wait after attempt \<open>n\<close> is \<open>multiplier * 2^(n-1)\<close>
  clamped between \<open>min\<close> and \<open>max\<close>.
\<close>

definition wait_exponential :: "rat \<Rightarrow> rat \<Rightarrow> rat \<Rightarrow> nat \<Rightarrow> rat" where
  "wait_exponential multiplier lo hi attempt_number =
     max (max 0 lo) (min (multiplier * 2 ^ (attempt_number - 1)) hi)"

fun retry ::
  "nat \<Rightarrow> nat \<Rightarrow> (nat \<Rightarrow> rat) \<Rightarrow> (rat \<Rightarrow> 'w \<Rightarrow> 'w) \<Rightarrow> ('w \<Rightarrow> (error + 'r) \<times> bool \<times> 'w) \<Rightarrow> 'w
     \<Rightarrow> ('r, 'w) call" where
  "retry 0 attempt_number wait sleep f w =
     \<lparr>call_result = Inl RetryError, call_posts = 0, call_waits = [], call_world = w\<rparr>"
| "retry (Suc left) attempt_number wait sleep f w =
     (case f w of
        (Inr v, posted, w1) \<Rightarrow>
          \<lparr>call_result = Inr v, call_posts = (if posted then 1 else 0), call_waits = [],
           call_world = w1\<rparr>
      | (Inl e, posted, w1) \<Rightarrow>
          if left = 0
          then \<lparr>call_result = Inl RetryError, call_posts = (if posted then 1 else 0),
                call_waits = [], call_world = w1\<rparr>
          else (let d = wait attempt_number;
                    rest = retry left (attempt_number + 1) wait sleep f (sleep d w1)
                in rest\<lparr>call_posts := (if posted then 1 else 0) + call_posts rest,
                        call_waits := d # call_waits rest\<rparr>))"

definition query_openrouter ::
  "('m, 'w) net \<Rightarrow> 'm \<Rightarrow> string \<Rightarrow> 'w \<Rightarrow> (string \<times> (string \<times> json) list, 'w) call" where
  "query_openrouter nw messages model w =
     retry 3 1 (wait_exponential 1 2 10) (net_sleep nw) (query_openrouter_body nw messages model) w"

text \<open>
  \<^verbatim>\<open>query_huggingface_new\<close>: the decorator is commented out (line 245), so the body
  runs once.
\<close>

definition query_huggingface_new ::
  "('m, 'w) net \<Rightarrow> 'm \<Rightarrow> string \<Rightarrow> string \<Rightarrow> 'w \<Rightarrow> (string \<times> (string \<times> json) list, 'w) call" where
  "query_huggingface_new nw messages model provider w =
     (case HF_API_KEY nw of
        None \<Rightarrow> \<lparr>call_result = Inl TypeError, call_posts = 0, call_waits = [], call_world = w\<rparr>
      | Some k \<Rightarrow>
          (let URL = ''https://router.huggingface.co/'' @ provider @ ''/v1/chat/completions''
           in case requests_post nw URL model messages w of
                (Inl e, w1) \<Rightarrow>
                  \<lparr>call_result = Inl e, call_posts = 1, call_waits = [], call_world = w1\<rparr>
              | (Inr r, w1) \<Rightarrow>
                  \<lparr>call_result =
                     (if status_code r = 200
                      then read_answer (body_json nw) (\<lambda>j. JStr provider) (resp_text r)
                      else Inr ([], [])),
                   call_posts = 1, call_waits = [], call_world = w1\<rparr>))"

text \<open>
  \<^verbatim>\<open>query_huggingface\<close>, the single-string client: no decorator. It logs
  \<^verbatim>\<open>response.json()\<close> before it looks at the status, and returns \<^verbatim>\<open>None\<close>, not
  a pair, when there is no answer.
\<close>

definition generated_text :: "json \<Rightarrow> string option" where
  "generated_text j =
     (case j of
        JArr (JObj kvs # rest) \<Rightarrow>
          (case map_of kvs ''generated_text'' of Some (JStr x) \<Rightarrow> Some (strip x) | _ \<Rightarrow> None)
      | _ \<Rightarrow> None)"

definition query_huggingface ::
  "('m, 'w) net \<Rightarrow> 'm \<Rightarrow> string \<Rightarrow> 'w \<Rightarrow> ((string \<times> (string \<times> json) list) option, 'w) call" where
  "query_huggingface nw messages model w =
     (case HF_API_KEY nw of
        None \<Rightarrow> \<lparr>call_result = Inl TypeError, call_posts = 0, call_waits = [], call_world = w\<rparr>
      | Some k \<Rightarrow>
          (let URL = HF_API_URL @ ''/'' @ model
           in case requests_post nw URL model messages w of
                (Inl e, w1) \<Rightarrow>
                  \<lparr>call_result = Inl e, call_posts = 1, call_waits = [], call_world = w1\<rparr>
              | (Inr r, w1) \<Rightarrow>
                  \<lparr>call_result =
                     (case body_json nw (resp_text r) of
                        Inl e \<Rightarrow> Inl e
                      | Inr j \<Rightarrow>
                          if status_code r = 200
                          then (case generated_text j of
                                  Some output_text \<Rightarrow> Inr (Some (output_text, []))
                                | None \<Rightarrow> Inr None)
                          else Inr None),
                   call_posts = 1, call_waits = [], call_world = w1\<rparr>))"

text \<open>
  Networks for the examples, over a world that adds up the seconds slept: one whose
  \<^verbatim>\<open>requests.post\<close> always raises, and one that always answers 500 with a JSON
  error body.
\<close>

definition down_net :: "(string list, rat) net" where
  "down_net =
     \<lparr>requests_post = (\<lambda>u model messages w. (Inl RequestException, w)),
      body_json = (\<lambda>s. Inl JSONDecodeError),
      net_sleep = (\<lambda>d w. w + d),
      OR_API_KEY = Some ''sk-or-0000'',
      HF_API_KEY = Some ''hf_0000''\<rparr>"

definition error_net :: "(string list, rat) net" where
  "error_net =
     down_net\<lparr>requests_post :=
                 (\<lambda>u model messages w. (Inr \<lparr>status_code = 500, resp_text = ''{}''\<rparr>, w)),
               body_json := (\<lambda>s. if s = ''{}'' then Inr (JObj []) else Inl JSONDecodeError)\<rparr>"


section \<open>Properties of the chunkers\<close>

subsection \<open>Splitting and joining\<close>

lemma is_space_blank [simp]: "is_space CHR '' ''"
  by (simp add: is_space_def)

lemma split_from_words:
  "(cur = [] \<or> is_word cur) \<Longrightarrow> \<forall>w\<in>set (split_from cur s). is_word w"
proof (induction s arbitrary: cur)
  case Nil
  then show ?case by auto
next
  case (Cons c cs)
  show ?case
  proof (cases "is_space c")
    case True
    have "\<forall>w\<in>set (split_from [] cs). is_word w"
      by (rule Cons.IH) simp
    with True Cons.prems show ?thesis by auto
  next
    case False
    with Cons.prems have "is_word (cur @ [c])"
      by (auto simp: is_word_def)
    then have "\<forall>w\<in>set (split_from (cur @ [c]) cs). is_word w"
      by (intro Cons.IH) simp
    with False show ?thesis by simp
  qed
qed

lemma split_words: "\<forall>w\<in>set (split s). is_word w"
  unfolding split_def by (rule split_from_words) simp

lemma split_from_append_word:
  "\<forall>c\<in>set w. \<not> is_space c \<Longrightarrow> split_from cur (w @ r) = split_from (cur @ w) r"
  by (induction w arbitrary: cur) auto

lemma split_from_word_end: "is_word w \<Longrightarrow> split_from [] w = [w]"
  using split_from_append_word [of w "[]" "[]"] by (simp add: is_word_def)

lemma split_from_word_blank:
  "is_word w \<Longrightarrow> split_from [] (w @ CHR '' '' # r) = w # split_from [] r"
  using split_from_append_word [of w "[]" "CHR '' '' # r"] by (simp add: is_word_def)

lemma split_join_sp: "\<forall>w\<in>set ws. is_word w \<Longrightarrow> split (join_sp ws) = ws"
proof (induction ws rule: join_sp.induct)
  case 1
  then show ?case by (simp add: split_def)
next
  case (2 w)
  then show ?case by (simp add: split_def split_from_word_end)
next
  case (3 w v ws)
  then have "split (join_sp (v # ws)) = v # ws" by simp
  with 3 show ?case by (simp add: split_def split_from_word_blank)
qed

lemma split_from_blank_between:
  "split_from cur (a @ CHR '' '' # b) = split_from cur a @ split_from [] b"
  by (induction a arbitrary: cur) auto

lemma split_blank_between: "split (a @ CHR '' '' # b) = split a @ split b"
  by (simp add: split_def split_from_blank_between)

lemma split_join_concat: "split (join_sp ss) = concat (map split ss)"
proof (induction ss rule: join_sp.induct)
  case 1
  then show ?case by (simp add: split_def)
next
  case (2 w)
  then show ?case by simp
next
  case (3 w v ws)
  then show ?case by (simp add: split_blank_between)
qed

lemma concat_split_join_groups:
  "\<forall>w\<in>set (concat gs). is_word w \<Longrightarrow> concat (map split (map join_sp gs)) = concat gs"
  by (induction gs) (auto simp: split_join_sp)

lemma join_sp_append:
  "xs \<noteq> [] \<Longrightarrow> ys \<noteq> [] \<Longrightarrow> join_sp (xs @ ys) = join_sp xs @ '' '' @ join_sp ys"
proof (induction xs rule: join_sp.induct)
  case 1
  then show ?case by simp
next
  case (2 w)
  then show ?case by (cases ys) auto
next
  case (3 w v ws)
  then show ?case by simp
qed

lemma join_sp_groups:
  "\<forall>g\<in>set gs. g \<noteq> [] \<Longrightarrow> join_sp (map join_sp gs) = join_sp (concat gs)"
proof (induction gs)
  case Nil
  then show ?case by simp
next
  case (Cons g gs)
  show ?case
  proof (cases gs)
    case Nil
    then show ?thesis by simp
  next
    case (Cons h hs)
    with Cons.prems have ne: "g \<noteq> []" "concat gs \<noteq> []" by auto
    have "join_sp (map join_sp (g # gs)) = join_sp g @ '' '' @ join_sp (map join_sp gs)"
      using Cons by simp
    also have "\<dots> = join_sp g @ '' '' @ join_sp (concat gs)"
      using Cons.IH Cons.prems by simp
    also have "\<dots> = join_sp (g @ concat gs)"
      using ne by (simp add: join_sp_append)
    finally show ?thesis by simp
  qed
qed

subsection \<open>The greedy loops\<close>

lemma chunk_text_loop_entries:
  "chunk_text_loop enc m (map join_sp gs) cur cnt ws =
     map join_sp (chunk_entries_loop enc (\<lambda>w. w @ '' '') m gs cur cnt ws)"
proof (induction ws arbitrary: gs cur cnt)
  case Nil
  then show ?case by simp
next
  case (Cons w ws)
  have close: "map join_sp gs @ [join_sp cur] = map join_sp (gs @ [cur])" by simp
  show ?case
    using Cons.IH [of "gs @ [cur]" "[w]"] Cons.IH [of gs "cur @ [w]"]
    unfolding close [symmetric] by (simp add: Let_def)
qed

lemma chunk_text_groups:
  "chunk_text enc text m = map join_sp (chunk_entries enc (\<lambda>w. w @ '' '') m (split text))"
  using chunk_text_loop_entries [of enc m "[]"] by (simp add: chunk_text_def chunk_entries_def)

lemma chunk_entries_loop_concat:
  "concat (chunk_entries_loop enc dumps m chunks cur cnt es) = concat chunks @ cur @ es"
  by (induction es arbitrary: chunks cur cnt) (auto simp: Let_def)

lemma chunk_entries_concat: "concat (chunk_entries enc dumps m es) = es"
  by (simp add: chunk_entries_def chunk_entries_loop_concat)

lemma chunk_entries_loop_ok:
  "\<forall>c\<in>set chunks. chunk_ok enc dumps m c \<Longrightarrow> chunk_ok enc dumps m cur
   \<Longrightarrow> cnt = (\<Sum>e\<leftarrow>cur. int (enc (dumps e)))
   \<Longrightarrow> \<forall>c\<in>set (chunk_entries_loop enc dumps m chunks cur cnt es). chunk_ok enc dumps m c"
proof (induction es arbitrary: chunks cur cnt)
  case Nil
  then show ?case by auto
next
  case (Cons e es)
  let ?t = "int (enc (dumps e))"
  show ?case
  proof (cases "cnt + ?t > m")
    case True
    have "\<forall>c\<in>set (chunk_entries_loop enc dumps m (chunks @ [cur]) [e] ?t es).
            chunk_ok enc dumps m c"
    proof (rule Cons.IH)
      show "\<forall>c\<in>set (chunks @ [cur]). chunk_ok enc dumps m c"
        using Cons.prems by simp
      show "chunk_ok enc dumps m [e]" by (auto simp: chunk_ok_def)
      show "?t = (\<Sum>e\<leftarrow>[e]. int (enc (dumps e)))" by simp
    qed
    with True show ?thesis by (simp add: Let_def)
  next
    case False
    have "\<forall>c\<in>set (chunk_entries_loop enc dumps m chunks (cur @ [e]) (cnt + ?t) es).
            chunk_ok enc dumps m c"
    proof (rule Cons.IH)
      show "\<forall>c\<in>set chunks. chunk_ok enc dumps m c" using Cons.prems by simp
      show "chunk_ok enc dumps m (cur @ [e])"
        using False Cons.prems(3) by (simp add: chunk_ok_def)
      show "cnt + ?t = (\<Sum>e\<leftarrow>cur @ [e]. int (enc (dumps e)))"
        using Cons.prems(3) by simp
    qed
    with False show ?thesis by (simp add: Let_def)
  qed
qed

lemma chunk_entries_ok:
  "0 \<le> m \<Longrightarrow> \<forall>c\<in>set (chunk_entries enc dumps m es). chunk_ok enc dumps m c"
  unfolding chunk_entries_def
  by (rule chunk_entries_loop_ok) (simp_all add: chunk_ok_def)

lemma chunk_entries_loop_nonempty:
  "\<forall>c\<in>set chunks. c \<noteq> []
   \<Longrightarrow> cur \<noteq> [] \<or> (case es of [] \<Rightarrow> True | e # _ \<Rightarrow> cnt + int (enc (dumps e)) \<le> m)
   \<Longrightarrow> \<forall>c\<in>set (chunk_entries_loop enc dumps m chunks cur cnt es). c \<noteq> []"
proof (induction es arbitrary: chunks cur cnt)
  case Nil
  then show ?case by auto
next
  case (Cons e es)
  let ?t = "int (enc (dumps e))"
  show ?case
  proof (cases "cnt + ?t > m")
    case True
    with Cons.prems have "cur \<noteq> []" by auto
    with Cons.prems have "\<forall>c\<in>set (chunks @ [cur]). c \<noteq> []" by simp
    then have "\<forall>c\<in>set (chunk_entries_loop enc dumps m (chunks @ [cur]) [e] ?t es). c \<noteq> []"
      by (rule Cons.IH) simp
    with True show ?thesis by (simp add: Let_def)
  next
    case False
    have "\<forall>c\<in>set (chunk_entries_loop enc dumps m chunks (cur @ [e]) (cnt + ?t) es). c \<noteq> []"
      using Cons.prems(1) by (rule Cons.IH) simp
    with False show ?thesis by (simp add: Let_def)
  qed
qed

lemma chunk_entries_nonempty:
  "(case es of [] \<Rightarrow> True | e # _ \<Rightarrow> int (enc (dumps e)) \<le> m)
   \<Longrightarrow> \<forall>c\<in>set (chunk_entries enc dumps m es). c \<noteq> []"
  unfolding chunk_entries_def
  by (rule chunk_entries_loop_nonempty) (auto split: list.splits)


text \<open>
  When the first word alone exceeds the limit, the loop closes the chunk it has not yet
  put a word into: the first chunk is the empty string, and the chunks joined with single
  spaces start with a blank.
\<close>

lemma chunk_text_oversized_first:
  "chunk_text length ''aaaaaaaaa b'' 5 = [[], ''aaaaaaaaa'', ''b'']
   \<and> join_sp (chunk_text length ''aaaaaaaaa b'' 5) = '' aaaaaaaaa b''"
  by (simp add: chunk_text_def split_def is_space_def)

section \<open>Claims about the chunkers\<close>

text \<open>
  C6, as amended. \<^verbatim>\<open>chunk_text\<close> works on \<^verbatim>\<open>text.split()\<close>, so what it keeps is
  the sequence of words, not the whitespace between them: for every text, tokenizer and
  limit, the words of the chunks, chunk after chunk, are exactly the words of the text in
  their order, and so are the words of the chunks joined with single spaces. When the
  first word is within the limit and the text is already its words joined by single
  spaces, joining the chunks with single spaces gives back the text itself.
\<close>

theorem chunk_text_keeps_words:
  "concat (map split (chunk_text enc text max_tokens)) = split text
   \<and> split (join_sp (chunk_text enc text max_tokens)) = split text
   \<and> ((case split text of [] \<Rightarrow> True | w # _ \<Rightarrow> int (enc (w @ '' '')) \<le> max_tokens)
        \<and> join_sp (split text) = text
      \<longrightarrow> join_sp (chunk_text enc text max_tokens) = text)"
proof -
  let ?gs = "chunk_entries enc (\<lambda>w. w @ '' '') max_tokens (split text)"
  have chunks: "chunk_text enc text max_tokens = map join_sp ?gs"
    by (rule chunk_text_groups)
  have groups: "concat ?gs = split text"
    by (rule chunk_entries_concat)
  have "\<forall>w\<in>set (concat ?gs). is_word w"
    unfolding groups by (rule split_words)
  then have words: "concat (map split (map join_sp ?gs)) = split text"
    using groups by (simp only: concat_split_join_groups)
  have first: "concat (map split (chunk_text enc text max_tokens)) = split text"
    using words chunks by simp
  have second: "split (join_sp (chunk_text enc text max_tokens)) = split text"
    using first by (simp only: split_join_concat)
  have third: "join_sp (chunk_text enc text max_tokens) = text"
    if fits: "case split text of [] \<Rightarrow> True | w # _ \<Rightarrow> int (enc (w @ '' '')) \<le> max_tokens"
      and normal: "join_sp (split text) = text"
  proof -
    have "\<forall>g\<in>set ?gs. g \<noteq> []"
      using fits by (rule chunk_entries_nonempty)
    then have "join_sp (map join_sp ?gs) = join_sp (concat ?gs)"
      by (rule join_sp_groups)
    with chunks groups normal show ?thesis by simp
  qed
  from first second third show ?thesis by blast
qed

theorem chunk_text_keeps_words_witness:
  "(case split ''aa bbbbbbb c d'' of [] \<Rightarrow> True | w # _ \<Rightarrow> int (length (w @ '' '')) \<le> 5)
   \<and> join_sp (split ''aa bbbbbbb c d'') = ''aa bbbbbbb c d''
   \<and> chunk_text length ''aa bbbbbbb c d'' 5 = [''aa'', ''bbbbbbb'', ''c d'']
   \<and> join_sp (chunk_text length ''aa bbbbbbb c d'' 5) = ''aa bbbbbbb c d''"
  using chunk_text_keeps_words [of length "''aa bbbbbbb c d''" 5]
  by (simp add: chunk_text_def split_def is_space_def)

text \<open>
  C6 as stated fails: a text with two blanks between its words does not come back from
  its chunks joined with single spaces.
\<close>

theorem chunk_text_join_counterexample:
  "join_sp (chunk_text length ''a  b'' 8000) \<noteq> ''a  b''"
  by (simp add: chunk_text_def split_def is_space_def)

text \<open>
  C7. For a positive limit, every chunk of \<^verbatim>\<open>chunk_text\<close> (read as its words) and
  every chunk of \<^verbatim>\<open>chunk_entries\<close> has a running token count, the sum of the
  counts of its items, of at most the limit, unless the chunk is one single item that
  alone exceeds the limit; and the items of the chunks, chunk after chunk, are the input's
  items in order, none split and none dropped.
\<close>

theorem chunk_token_bound:
  assumes "0 < max_tokens"
  shows "(\<forall>c\<in>set (chunk_text enc text max_tokens).
            chunk_ok enc (\<lambda>w. w @ '' '') max_tokens (split c))
         \<and> concat (map split (chunk_text enc text max_tokens)) = split text
         \<and> (\<forall>c\<in>set (chunk_entries enc dumps max_tokens entries).
               chunk_ok enc dumps max_tokens c)
         \<and> concat (chunk_entries enc dumps max_tokens entries) = entries"
proof -
  let ?sp = "\<lambda>w. w @ '' ''"
  let ?gs = "chunk_entries enc ?sp max_tokens (split text)"
  from assms have lim: "0 \<le> max_tokens" by simp
  have chunks: "chunk_text enc text max_tokens = map join_sp ?gs"
    by (rule chunk_text_groups)
  have groups: "concat ?gs = split text"
    by (rule chunk_entries_concat)
  have all_words: "\<forall>w\<in>set (concat ?gs). is_word w"
    unfolding groups by (rule split_words)
  have ok: "\<forall>g\<in>set ?gs. chunk_ok enc ?sp max_tokens g"
    using lim by (rule chunk_entries_ok)
  have text_ok: "\<forall>c\<in>set (chunk_text enc text max_tokens). chunk_ok enc ?sp max_tokens (split c)"
  proof
    fix c assume "c \<in> set (chunk_text enc text max_tokens)"
    with chunks obtain g where g: "g \<in> set ?gs" "c = join_sp g" by auto
    with all_words have "\<forall>w\<in>set g. is_word w" by auto
    then have "split c = g" using g by (simp add: split_join_sp)
    with ok g show "chunk_ok enc ?sp max_tokens (split c)" by simp
  qed
  have text_words: "concat (map split (chunk_text enc text max_tokens)) = split text"
    using all_words groups chunks by (simp only: concat_split_join_groups)
  have entries_ok: "\<forall>c\<in>set (chunk_entries enc dumps max_tokens entries).
      chunk_ok enc dumps max_tokens c"
    using lim by (rule chunk_entries_ok)
  have entries_all: "concat (chunk_entries enc dumps max_tokens entries) = entries"
    by (rule chunk_entries_concat)
  from text_ok text_words entries_ok entries_all show ?thesis by blast
qed

theorem chunk_token_bound_witness:
  "(0::int) < 5
   \<and> chunk_text length ''aa bbbbbbb c d'' 5 = [''aa'', ''bbbbbbb'', ''c d'']
   \<and> list_all (\<lambda>c. chunk_ok length (\<lambda>w. w @ '' '') 5 (split c))
         (chunk_text length ''aa bbbbbbb c d'' 5)
   \<and> chunk_entries length id 5 [''xx'', ''yyyyyyy'', ''z'', ''u'']
       = [[''xx''], [''yyyyyyy''], [''z'', ''u'']]
   \<and> list_all (chunk_ok length id 5)
         (chunk_entries length id 5 [''xx'', ''yyyyyyy'', ''z'', ''u''])"
proof -
  have pos: "(0::int) < 5" by simp
  have run: "chunk_text length ''aa bbbbbbb c d'' 5 = [''aa'', ''bbbbbbb'', ''c d'']"
    by (simp add: chunk_text_def split_def is_space_def)
  have run2: "chunk_entries length id 5 [''xx'', ''yyyyyyy'', ''z'', ''u'']
      = [[''xx''], [''yyyyyyy''], [''z'', ''u'']]"
    by (simp add: chunk_entries_def)
  from chunk_token_bound [OF pos, of length "''aa bbbbbbb c d''" id "[''xx'', ''yyyyyyy'', ''z'', ''u'']"]
  have "list_all (\<lambda>c. chunk_ok length (\<lambda>w. w @ '' '') 5 (split c))
          (chunk_text length ''aa bbbbbbb c d'' 5)"
    and "list_all (chunk_ok length id 5)
          (chunk_entries length id 5 [''xx'', ''yyyyyyy'', ''z'', ''u''])"
    unfolding list_all_iff by blast+
  with pos run run2 show ?thesis by blast
qed

section \<open>The ledger and the inference loop\<close>


lemma load_lines_decoded:
  "load_lines loads S (map Inr lines) =
     Inr (S \<union> {k. \<exists>line\<in>set lines. strip line \<noteq> [] \<and> line_key loads line = Inr k})"
proof (induction lines arbitrary: S)
  case Nil
  then show ?case by simp
next
  case (Cons line lines)
  show ?case
  proof (cases "strip line \<noteq> []")
    case False
    then show ?thesis using Cons.IH [of S] by auto
  next
    case True
    show ?thesis
    proof (cases "line_key loads line")
      case (Inl e)
      with True show ?thesis using Cons.IH [of S] by auto
    next
      case (Inr k)
      with True show ?thesis using Cons.IH [of "insert k S"] by auto
    qed
  qed
qed

text \<open>A line that cannot be read ends the load with the exception, whatever came before.\<close>

lemma load_lines_unreadable:
  "load_lines loads S (map Inr lines @ Inl e # rest) = Inl e"
proof (induction lines arbitrary: S)
  case Nil
  then show ?case by simp
next
  case (Cons line lines)
  then show ?case by (simp split: sum.splits)
qed

lemma line_key_Inr:
  "line_key loads line = Inr k \<longleftrightarrow>
     (\<exists>entry. loads line = Inr entry \<and>
        ((\<exists>s v rest. entry = JObj ((s, v) # rest) \<and> k = KStr s)
         \<or> (\<exists>c cs. entry = JStr (c # cs) \<and> k = KStr [c])
         \<or> (\<exists>x xs. entry = JArr (x # xs) \<and> hash_key x = Inr k)))"
proof (cases "loads line")
  case (Inl e)
  then show ?thesis by (simp add: line_key_def)
next
  case (Inr entry)
  show ?thesis
  proof (cases entry rule: next_iter.cases)
  qed (use Inr in \<open>auto simp: line_key_def\<close>)
qed

lemma make_inferences_loop_calls:
  "set (oracle_calls (make_inferences_loop svc loads model rf rr provider solved calls md w))
     \<subseteq> set calls \<union> {key \<in> fst ` set md. KStr key \<notin> solved}"
proof (induction md arbitrary: calls w)
  case Nil
  then show ?case by simp
next
  case (Cons km md)
  obtain key messages where km: "km = (key, messages)" by (cases km)
  show ?case
  proof (cases "KStr key \<in> solved")
    case True
    then show ?thesis using Cons.IH [of calls w] km by auto
  next
    case False
    obtain r w' where step: "process_conflict svc loads model rf rr provider key messages w = (r, w')"
      by (cases "process_conflict svc loads model rf rr provider key messages w")
    show ?thesis
    proof (cases r)
      case (Inl e)
      with False step km show ?thesis by auto
    next
      case (Inr u)
      with False step km show ?thesis using Cons.IH [of "calls @ [key]" w'] by auto
    qed
  qed
qed

lemma make_inferences_loop_prefix:
  "solved = {} \<Longrightarrow>
   prefix (oracle_calls (make_inferences_loop svc loads model rf rr provider solved calls md w))
     (calls @ map fst md)
   \<and> (outcome (make_inferences_loop svc loads model rf rr provider solved calls md w) = Inr ()
        \<longrightarrow> oracle_calls (make_inferences_loop svc loads model rf rr provider solved calls md w)
             = calls @ map fst md)
   \<and> (md \<noteq> [] \<longrightarrow> length calls < length (oracle_calls (make_inferences_loop svc loads model rf rr provider solved calls md w)))"
proof (induction md arbitrary: calls w)
  case Nil
  then show ?case by simp
next
  case (Cons km md)
  obtain key messages where km: "km = (key, messages)" by (cases km)
  obtain r w' where step: "process_conflict svc loads model rf rr provider key messages w = (r, w')"
    by (cases "process_conflict svc loads model rf rr provider key messages w")
  show ?case
  proof (cases r)
    case (Inl e)
    with Cons.prems step km show ?thesis by auto
  next
    case (Inr u)
    with Cons.prems step km show ?thesis using Cons.IH [of "calls @ [key]" w'] 
      by (cases md) (auto simp: )
  qed
qed


text \<open>
  On a ledger that can be read, a key of the solved set is never sent to an oracle
  client; and when the load raises, the run ends with that exception and no call.
\<close>

lemma solved_keys_never_queried:
  assumes "load_solved_conflict_keys loads fs results_file_path = Inr solved"
    and "KStr key \<in> solved"
  shows "key \<notin> set (oracle_calls (make_inferences svc loads fs messages_dict model
                  results_file_path raw_results_path provider w))"
  using assms
    make_inferences_loop_calls [of svc loads model results_file_path raw_results_path provider
      solved "[]" messages_dict w]
  by (auto simp: make_inferences_def)

lemma unreadable_ledger_ends_run:
  assumes "load_solved_conflict_keys loads fs results_file_path = Inl e"
  shows "make_inferences svc loads fs messages_dict model results_file_path raw_results_path
           provider w = \<lparr>outcome = Inl e, oracle_calls = [], world = w\<rparr>"
  using assms by (simp add: make_inferences_def)

text \<open>
  On a ledger all of whose lines can be read and whose JSON lines are all objects, as the
  writers \<^verbatim>\<open>save_result\<close> and \<^verbatim>\<open>write_to_results_file\<close> produce them, the solved set
  is exactly the set of first keys.
\<close>

lemma ledger_of_objects_first_keys:
  assumes "fs results_file_path = Some (Inr (map Inr lines))"
    and "\<forall>line\<in>set lines. \<forall>entry. loads line = Inr entry \<longrightarrow> (\<exists>kvs. entry = JObj kvs)"
  shows "load_solved_conflict_keys loads fs results_file_path = Inr (spec_first_keys loads lines)"
proof -
  have "{k. \<exists>line\<in>set lines. strip line \<noteq> [] \<and> line_key loads line = Inr k}
      = spec_first_keys loads lines"
    unfolding spec_first_keys_def line_key_Inr using assms(2) by fastforce
  then show ?thesis
    using assms(1) by (simp add: load_solved_conflict_keys_def load_lines_decoded)
qed

text \<open>
  C10. When no file exists at the ledger path, \<^verbatim>\<open>load_solved_conflict_keys\<close>
  returns the empty set without raising, so \<^verbatim>\<open>make_inferences\<close> skips no key: the
  oracle is invoked for the keys of \<^verbatim>\<open>messages_dict\<close> in their order, for all of
  them when no exception ends the run.
\<close>

theorem no_ledger_all_unsolved:
  assumes "fs results_file_path = None"
  shows "load_solved_conflict_keys loads fs results_file_path = Inr {}
    \<and> prefix (oracle_calls (make_inferences svc loads fs messages_dict model results_file_path
                  raw_results_path provider w)) (map fst messages_dict)
    \<and> (outcome (make_inferences svc loads fs messages_dict model results_file_path
                  raw_results_path provider w) = Inr ()
         \<longrightarrow> oracle_calls (make_inferences svc loads fs messages_dict model results_file_path
                  raw_results_path provider w) = map fst messages_dict)"
proof -
  have empty: "load_solved_conflict_keys loads fs results_file_path = Inr {}"
    using assms by (simp add: load_solved_conflict_keys_def)
  then show ?thesis
    using make_inferences_loop_prefix [of "{}" svc loads model results_file_path raw_results_path
        provider "[]" messages_dict w]
    by (simp add: make_inferences_def)
qed

lemma parse_no_json:
  "parse_result loads ''no json here'' = (Inr (JObj []), [No_JSON_object_found])"
  by (simp add: parse_result_def fence_at_def brace_search_def)

theorem no_ledger_all_unsolved_witness:
  "Map.empty ''results.jsonl'' = None
   \<and> load_solved_conflict_keys example_ledger_loads Map.empty ''results.jsonl'' = Inr {}
   \<and> outcome (make_inferences example_services example_ledger_loads Map.empty
         [(''caseA'', [''m1'']), (''caseB'', [''m2''])] ''model'' ''results.jsonl'' ''raw''
         ''openrouter'' 0) = Inr ()
   \<and> oracle_calls (make_inferences example_services example_ledger_loads Map.empty
         [(''caseA'', [''m1'']), (''caseB'', [''m2''])] ''model'' ''results.jsonl'' ''raw''
         ''openrouter'' 0) = [''caseA'', ''caseB'']"
proof -
  have run: "outcome (make_inferences example_services example_ledger_loads Map.empty
         [(''caseA'', [''m1'']), (''caseB'', [''m2''])] ''model'' ''results.jsonl'' ''raw''
         ''openrouter'' 0) = Inr ()"
    by (simp add: make_inferences_def load_solved_conflict_keys_def process_conflict_def
        example_services_def parse_no_json)
  show ?thesis
    using run no_ledger_all_unsolved [of Map.empty "''results.jsonl''" example_ledger_loads
        example_services "[(''caseA'', [''m1'']), (''caseB'', [''m2''])]" "''model''" "''raw''"
        "''openrouter''" 0]
    by simp
qed

text \<open>
  C2. The claim does not hold of the code at two places where the code visibly tries to
  tolerate a bad line and misses. A line that holds the JSON string \<^verbatim>\<open>"caseB"\<close>
  parses, is not skipped, and puts its first character \<^verbatim>\<open>c\<close> into the solved set,
  which is the first key of no line: \<^verbatim>\<open>make_inferences\<close> then skips the conflict
  \<^verbatim>\<open>c\<close> and sends \<^verbatim>\<open>caseB\<close> to the oracle. And a line that cannot be decoded
  is read outside the \<^verbatim>\<open>try\<close>: the load raises instead of skipping it, and the key
  of the good line before it is lost with the rest.
\<close>

theorem ledger_bad_lines_not_skipped:
  "load_solved_conflict_keys example_ledger_loads
       [''results.jsonl'' \<mapsto> Inr [Inr ''\"caseB\"'']] ''results.jsonl'' = Inr {KStr ''c''}
   \<and> spec_first_keys example_ledger_loads [''\"caseB\"''] = {}
   \<and> oracle_calls (make_inferences example_services example_ledger_loads
         [''results.jsonl'' \<mapsto> Inr [Inr ''\"caseB\"'']]
         [(''c'', [''m1'']), (''caseB'', [''m2''])] ''model'' ''results.jsonl'' ''raw''
         ''openrouter'' 0) = [''caseB'']
   \<and> load_solved_conflict_keys example_ledger_loads
       [''results.jsonl'' \<mapsto> Inr [Inr ''{\"caseA\": {}}'', Inl UnicodeDecodeError]]
       ''results.jsonl'' = Inl UnicodeDecodeError"
proof -
  have keys: "load_solved_conflict_keys example_ledger_loads
       [''results.jsonl'' \<mapsto> Inr [Inr ''\"caseB\"'']] ''results.jsonl'' = Inr {KStr ''c''}"
    by (simp add: load_solved_conflict_keys_def line_key_def example_ledger_loads_def
        strip_def is_space_def)
  have none: "spec_first_keys example_ledger_loads [''\"caseB\"''] = {}"
    by (simp add: spec_first_keys_def example_ledger_loads_def)
  have calls: "oracle_calls (make_inferences example_services example_ledger_loads
         [''results.jsonl'' \<mapsto> Inr [Inr ''\"caseB\"'']]
         [(''c'', [''m1'']), (''caseB'', [''m2''])] ''model'' ''results.jsonl'' ''raw''
         ''openrouter'' 0) = [''caseB'']"
    unfolding make_inferences_def keys
    by (simp add: process_conflict_def example_services_def parse_no_json)
  have raised: "load_solved_conflict_keys example_ledger_loads
       [''results.jsonl'' \<mapsto> Inr [Inr ''{\"caseA\": {}}'', Inl UnicodeDecodeError]]
       ''results.jsonl'' = Inl UnicodeDecodeError"
    by (simp add: load_solved_conflict_keys_def line_key_def example_ledger_loads_def
        split: sum.splits)
  from keys none calls raised show ?thesis by blast
qed

section \<open>The result parser\<close>


lemma strip_prefix_Some: "strip_prefix p s = Some r \<longleftrightarrow> s = p @ r"
  by (induction p s rule: strip_prefix.induct) auto

lemma strip_prefix_append [simp]: "strip_prefix p (p @ r) = Some r"
  by (simp add: strip_prefix_Some)

lemma lazy_body_sound:
  "lazy_body acc s = Some g \<Longrightarrow>
     \<exists>mid ws2 post. g = acc @ mid @ ''}'' \<and> s = mid @ ''}'' @ ws2 @ ''```'' @ post
        \<and> (\<forall>x\<in>set ws2. is_space x)"
proof (induction s arbitrary: acc)
  case Nil
  then show ?case by simp
next
  case (Cons c cs)
  show ?case
  proof (cases "c = CHR ''}'' \<and> strip_prefix ''```'' (dropWhile is_space cs) \<noteq> None")
    case True
    then obtain post where post: "dropWhile is_space cs = ''```'' @ post"
      by (auto simp: strip_prefix_Some)
    have "cs = takeWhile is_space cs @ dropWhile is_space cs" by simp
    with post have cs: "cs = takeWhile is_space cs @ ''```'' @ post" by simp
    have sp: "\<forall>x\<in>set (takeWhile is_space cs). is_space x"
      by (auto dest: set_takeWhileD)
    from True Cons.prems have g: "g = acc @ [c]" by simp
    show ?thesis
      apply (rule exI [of _ "[]"])
      apply (rule exI [of _ "takeWhile is_space cs"])
      apply (rule exI [of _ post])
      using True g cs sp by simp
  next
    case False
    with Cons.prems have "lazy_body (acc @ [c]) cs = Some g" by auto
    from Cons.IH [OF this] obtain mid ws2 post where
      h: "g = (acc @ [c]) @ mid @ ''}''" "cs = mid @ ''}'' @ ws2 @ ''```'' @ post"
         "\<forall>x\<in>set ws2. is_space x" by blast
    show ?thesis
      apply (rule exI [of _ "c # mid"])
      apply (rule exI [of _ ws2])
      apply (rule exI [of _ post])
      using h by simp
  qed
qed

lemma dropWhile_space_blanks:
  "\<forall>x\<in>set ws. is_space x \<Longrightarrow> \<not> is_space c \<Longrightarrow> dropWhile is_space (ws @ c # r) = c # r"
  by (induction ws) auto

lemma not_space_backquote [simp]: "\<not> is_space CHR ''`''"
  by (simp add: is_space_def)

lemma not_space_brace [simp]: "\<not> is_space CHR ''{''"
  by (simp add: is_space_def)

lemma lazy_body_complete:
  "\<forall>x\<in>set ws2. is_space x \<Longrightarrow> lazy_body acc (mid @ ''}'' @ ws2 @ ''```'' @ post) \<noteq> None"
proof (induction mid arbitrary: acc)
  case Nil
  have "dropWhile is_space (ws2 @ ''```'' @ post) = ''```'' @ post"
    using dropWhile_space_blanks [OF Nil, of "CHR ''`''" "''``'' @ post"] by simp
  then show ?case by simp
next
  case (Cons c mid)
  then show ?case by simp
qed

lemma fence_at_sound:
  assumes "fence_at s = Some c"
  shows "\<exists>tag ws1 body ws2 post. s = ''```'' @ tag @ ws1 @ c @ ws2 @ ''```'' @ post
        \<and> tag \<in> {[], ''json'', ''python''}
        \<and> (\<forall>x\<in>set ws1. is_space x) \<and> (\<forall>x\<in>set ws2. is_space x)
        \<and> c = ''{'' @ body @ ''}''"
proof -
  from assms obtain r where r: "strip_prefix ''```'' s = Some r"
    by (auto simp: fence_at_def split: option.splits)
  then have s: "s = ''```'' @ r" by (simp add: strip_prefix_Some)
  define r1 where "r1 = (case strip_prefix ''json'' r of
                       Some x \<Rightarrow> x
                     | None \<Rightarrow> (case strip_prefix ''python'' r of Some x \<Rightarrow> x | None \<Rightarrow> r))"
  have "\<exists>tag. tag \<in> {[], ''json'', ''python''} \<and> r = tag @ r1"
    unfolding r1_def by (auto split: option.splits simp: strip_prefix_Some)
  then obtain tag where tag: "tag \<in> {[], ''json'', ''python''}" "r = tag @ r1" by blast
  from assms r obtain body0 where
    d: "dropWhile is_space r1 = CHR ''{'' # body0" and l: "lazy_body ''{'' body0 = Some c"
    by (auto simp: fence_at_def Let_def r1_def [symmetric] split: list.splits if_splits)
  have "r1 = takeWhile is_space r1 @ dropWhile is_space r1" by simp
  with d have r1: "r1 = takeWhile is_space r1 @ CHR ''{'' # body0" by simp
  have sp1: "\<forall>x\<in>set (takeWhile is_space r1). is_space x"
    by (auto dest: set_takeWhileD)
  from lazy_body_sound [OF l] obtain mid ws2 post where
    h: "c = ''{'' @ mid @ ''}''" "body0 = mid @ ''}'' @ ws2 @ ''```'' @ post"
       "\<forall>x\<in>set ws2. is_space x" by blast
  have whole: "s = ''```'' @ tag @ takeWhile is_space r1 @ c @ ws2 @ ''```'' @ post"
    using s tag(2) h(1,2) by (subst (asm) r1) simp
  show ?thesis
    apply (rule exI [of _ tag])
    apply (rule exI [of _ "takeWhile is_space r1"])
    apply (rule exI [of _ mid])
    apply (rule exI [of _ ws2])
    apply (rule exI [of _ post])
    using whole tag(1) sp1 h(1,3) by blast
qed

lemma fence_search_sound: "fence_search s = Some c \<Longrightarrow> fenced s c"
proof (induction s)
  case Nil
  then show ?case by simp
next
  case (Cons x xs)
  show ?case
  proof (cases "fence_at (x # xs)")
    case None
    with Cons have "fenced xs c" by simp
    then obtain pre tag ws1 body ws2 post where
      h: "xs = pre @ ''```'' @ tag @ ws1 @ c @ ws2 @ ''```'' @ post"
        "tag \<in> {[], ''json'', ''python''}"
        "\<forall>x\<in>set ws1. is_space x" "\<forall>x\<in>set ws2. is_space x" "c = ''{'' @ body @ ''}''"
      unfolding fenced_def by blast
    from h(1) have "x # xs = (x # pre) @ ''```'' @ tag @ ws1 @ c @ ws2 @ ''```'' @ post" by simp
    with h(2-5) show ?thesis unfolding fenced_def by blast
  next
    case (Some g)
    with Cons.prems have "fence_at (x # xs) = Some c" by simp
    from fence_at_sound [OF this] obtain tag ws1 body ws2 post where
      h: "x # xs = ''```'' @ tag @ ws1 @ c @ ws2 @ ''```'' @ post"
        "tag \<in> {[], ''json'', ''python''}"
        "\<forall>x\<in>set ws1. is_space x" "\<forall>x\<in>set ws2. is_space x" "c = ''{'' @ body @ ''}''"
      by blast
    from h(1) have "x # xs = [] @ ''```'' @ tag @ ws1 @ c @ ws2 @ ''```'' @ post" by simp
    with h(2-5) show ?thesis unfolding fenced_def by blast
  qed
qed

lemma strip_prefix_blank_or_brace:
  "\<forall>x\<in>set ws. is_space x \<Longrightarrow> p \<noteq> [] \<Longrightarrow> \<not> is_space (hd p) \<Longrightarrow> hd p \<noteq> CHR ''{''
   \<Longrightarrow> strip_prefix p (ws @ CHR ''{'' # r) = None"
  by (cases p; cases ws) auto

lemma fence_at_complete:
  assumes "tag \<in> {[], ''json'', ''python''}"
    and "\<forall>x\<in>set ws1. is_space x" and "\<forall>x\<in>set ws2. is_space x"
  shows "fence_at (''```'' @ tag @ ws1 @ ''{'' @ body @ ''}'' @ ws2 @ ''```'' @ post) \<noteq> None"
proof -
  let ?rest = "ws1 @ CHR ''{'' # body @ ''}'' @ ws2 @ ''```'' @ post"
  have nj: "strip_prefix ''json'' ?rest = None"
    using assms(2) by (intro strip_prefix_blank_or_brace) (simp_all add: is_space_def)
  have np: "strip_prefix ''python'' ?rest = None"
    using assms(2) by (intro strip_prefix_blank_or_brace) (simp_all add: is_space_def)
  have drop: "dropWhile is_space ?rest = CHR ''{'' # body @ ''}'' @ ws2 @ ''```'' @ post"
    using assms(2) by (intro dropWhile_space_blanks) simp_all
  have body: "lazy_body ''{'' (body @ ''}'' @ ws2 @ ''```'' @ post) \<noteq> None"
    using assms(3) by (rule lazy_body_complete)
  from assms(1) consider "tag = []" | "tag = ''json''" | "tag = ''python''" by auto
  then show ?thesis
  proof cases
    case 1
    have "fence_at (''```'' @ ?rest) \<noteq> None"
      using nj np drop body by (simp add: fence_at_def)
    with 1 show ?thesis by simp
  next
    case 2
    have "strip_prefix ''json'' (''json'' @ ?rest) = Some ?rest" by (rule strip_prefix_append)
    then have "fence_at (''```'' @ ''json'' @ ?rest) \<noteq> None"
      using drop body by (simp add: fence_at_def)
    with 2 show ?thesis by simp
  next
    case 3
    have a: "strip_prefix ''json'' (''python'' @ ?rest) = None" by simp
    have b: "strip_prefix ''python'' (''python'' @ ?rest) = Some ?rest"
      by (rule strip_prefix_append)
    have "fence_at (''```'' @ ''python'' @ ?rest) \<noteq> None"
      using drop body by (simp add: fence_at_def)
    with 3 show ?thesis by simp
  qed
qed

lemma fence_search_append:
  "fence_at s \<noteq> None \<Longrightarrow> fence_search (pre @ s) \<noteq> None"
proof (induction pre)
  case Nil
  then show ?case by (cases s) (auto simp: fence_at_def)
next
  case (Cons x pre)
  then show ?case by (auto split: option.splits)
qed

lemma fence_search_complete: "fenced text c \<Longrightarrow> fence_search text \<noteq> None"
  unfolding fenced_def
  using fence_at_complete fence_search_append by (metis append.assoc)


lemma dropWhile_until:
  "c \<notin> set pre \<Longrightarrow> dropWhile (\<lambda>x. x \<noteq> c) (pre @ c # r) = c # r"
  by (induction pre) auto

lemma brace_search_complete:
  assumes "CHR ''{'' \<notin> set pre" and "CHR ''}'' \<notin> set post"
  shows "brace_search (pre @ ''{'' @ body @ ''}'' @ post) = Some (''{'' @ body @ ''}'')"
proof -
  have front: "dropWhile (\<lambda>x. x \<noteq> CHR ''{'') (pre @ CHR ''{'' # body @ CHR ''}'' # post)
      = CHR ''{'' # body @ CHR ''}'' # post"
    using assms(1) by (rule dropWhile_until)
  have "CHR ''}'' \<notin> set (rev post)" using assms(2) by simp
  then have "dropWhile (\<lambda>x. x \<noteq> CHR ''}'') (rev post @ CHR ''}'' # rev body) = CHR ''}'' # rev body"
    by (rule dropWhile_until)
  then have rear: "rev (dropWhile (\<lambda>x. x \<noteq> CHR ''}'') (rev (body @ CHR ''}'' # post)))
      = body @ ''}''"
    by simp
  show ?thesis
    using front rear by (simp add: brace_search_def Let_def)
qed

lemma brace_search_sound:
  assumes "brace_search s = Some c"
  shows "braced s c"
proof -
  let ?lb = "\<lambda>x. x \<noteq> CHR ''{''"
  let ?rb = "\<lambda>x. x \<noteq> CHR ''}''"
  from assms obtain c0 r where d: "dropWhile ?lb s = c0 # r"
    by (auto simp: brace_search_def split: list.splits)
  have "\<not> ?lb (hd (dropWhile ?lb s))"
    using d hd_dropWhile [of ?lb s] by simp
  with d have c0: "c0 = CHR ''{''" by simp
  have "s = takeWhile ?lb s @ dropWhile ?lb s" by simp
  with d c0 have s: "s = takeWhile ?lb s @ CHR ''{'' # r" by simp
  have pre: "CHR ''{'' \<notin> set (takeWhile ?lb s)"
    by (auto dest: set_takeWhileD)
  let ?body = "rev (dropWhile ?rb (rev r))"
  let ?post = "rev (takeWhile ?rb (rev r))"
  from assms d c0 have ne: "?body \<noteq> []" and c: "c = CHR ''{'' # ?body"
    by (auto simp: brace_search_def Let_def split: if_splits)
  have "rev r = takeWhile ?rb (rev r) @ dropWhile ?rb (rev r)" by simp
  then have "rev (rev r) = rev (takeWhile ?rb (rev r) @ dropWhile ?rb (rev r))"
    by (rule arg_cong)
  then have r: "r = ?body @ ?post" by (simp only: rev_rev_ident rev_append)
  have post: "CHR ''}'' \<notin> set ?post"
    by (auto dest: set_takeWhileD)
  from ne have ne': "dropWhile ?rb (rev r) \<noteq> []" by simp
  then have "\<not> ?rb (hd (dropWhile ?rb (rev r)))" by (rule hd_dropWhile)
  then have "hd (dropWhile ?rb (rev r)) = CHR ''}''" by simp
  with ne' have "last ?body = CHR ''}''" by (simp add: last_rev)
  with ne have "?body = butlast ?body @ ''}''"
    by (metis append_butlast_last_id)
  then obtain body where body: "?body = body @ ''}''" by blast
  have "s = takeWhile ?lb s @ c @ ?post"
    using s r c by (metis append_Cons)
  moreover have "c = ''{'' @ body @ ''}''" using c body by simp
  ultimately show ?thesis
    unfolding braced_def using pre post by blast
qed

lemma brace_search_iff: "brace_search s = Some c \<longleftrightarrow> braced s c"
proof
  assume "brace_search s = Some c"
  then show "braced s c" by (rule brace_search_sound)
next
  assume "braced s c"
  then show "brace_search s = Some c"
    unfolding braced_def using brace_search_complete by (metis append.assoc)
qed

lemma loads_or_empty_total:
  assumes "\<forall>s e. loads s = Inl e \<longrightarrow> e = JSONDecodeError"
  shows "loads_or_empty loads c =
     (case loads c of
        Inr v \<Rightarrow> (Inr v, [])
      | Inl e \<Rightarrow> (Inr (JObj []), [Failed_to_parse_JSON e]))"
proof (cases "loads c")
  case (Inl e)
  with assms have "e = JSONDecodeError" by blast
  with Inl show ?thesis by (simp add: loads_or_empty_def)
next
  case (Inr v)
  then show ?thesis by (simp add: loads_or_empty_def)
qed

text \<open>
  C8, as amended. Provided \<^verbatim>\<open>json.loads\<close> fails with \<^verbatim>\<open>JSONDecodeError\<close> only
  (the one exception \<^verbatim>\<open>parse_result\<close> catches), for every answer text:
  \<^verbatim>\<open>parse_result\<close> never raises; when the text holds a fenced candidate, tagged
  \<^verbatim>\<open>json\<close> or \<^verbatim>\<open>python\<close> or untagged, the first pattern finds one and the result
  is that candidate parsed, or the empty dict with a logged warning when the parse fails;
  when it holds none, the result is the parse of the text from its first opening brace to
  its last closing brace, or the empty dict with a logged warning when the parse fails;
  when it holds neither, the result is the empty dict with a logged warning.
\<close>

theorem parse_result_extraction:
  assumes "\<forall>s e. loads s = Inl e \<longrightarrow> e = JSONDecodeError"
  shows "(\<exists>v ws. parse_result loads text = (Inr v, ws))
    \<and> ((\<exists>c. fenced text c) \<longrightarrow>
          (\<exists>c. fenced text c \<and> fence_search text = Some c
             \<and> parse_result loads text =
                 (case loads c of
                    Inr v \<Rightarrow> (Inr v, [])
                  | Inl e \<Rightarrow> (Inr (JObj []), [Failed_to_parse_JSON e]))))
    \<and> (\<not> (\<exists>c. fenced text c) \<longrightarrow>
          (\<forall>c. braced text c \<longrightarrow>
             parse_result loads text =
               (case loads c of
                  Inr v \<Rightarrow> (Inr v, [])
                | Inl e \<Rightarrow> (Inr (JObj []), [Failed_to_parse_JSON e]))))
    \<and> (\<not> (\<exists>c. fenced text c) \<and> \<not> (\<exists>c. braced text c) \<longrightarrow>
          parse_result loads text = (Inr (JObj []), [No_JSON_object_found]))"
proof -
  note total = loads_or_empty_total [OF assms]
  have never: "\<exists>v ws. parse_result loads text = (Inr v, ws)"
    by (simp add: parse_result_def total split: option.splits sum.splits)
  have fence: "\<exists>c. fenced text c \<and> fence_search text = Some c
      \<and> parse_result loads text =
          (case loads c of
             Inr v \<Rightarrow> (Inr v, [])
           | Inl e \<Rightarrow> (Inr (JObj []), [Failed_to_parse_JSON e]))"
    if "\<exists>c. fenced text c"
  proof -
    from that obtain c where "fence_search text = Some c"
      using fence_search_complete by blast
    moreover from this have "fenced text c" by (rule fence_search_sound)
    ultimately show ?thesis by (auto simp: parse_result_def total)
  qed
  have none: "fence_search text = None" if "\<not> (\<exists>c. fenced text c)"
    using that fence_search_sound by (cases "fence_search text") auto
  have brace: "parse_result loads text =
      (case loads c of
         Inr v \<Rightarrow> (Inr v, [])
       | Inl e \<Rightarrow> (Inr (JObj []), [Failed_to_parse_JSON e]))"
    if "\<not> (\<exists>c. fenced text c)" and "braced text c" for c
    using none [OF that(1)] that(2) by (simp add: parse_result_def total brace_search_iff [symmetric])
  have empty: "parse_result loads text = (Inr (JObj []), [No_JSON_object_found])"
    if "\<not> (\<exists>c. fenced text c)" and "\<not> (\<exists>c. braced text c)"
  proof -
    from that(2) have "brace_search text = None"
      using brace_search_sound by (cases "brace_search text") auto
    with none [OF that(1)] show ?thesis by (simp add: parse_result_def)
  qed
  from never fence brace empty show ?thesis by blast
qed

lemma example_loads_errors: "\<forall>s e. example_loads s = Inl e \<longrightarrow> e = JSONDecodeError"
  by (simp add: example_loads_def)

lemma example_answer_fence:
  "fence_search ''Here is the result:\<newline>```json\<newline>{\"verdict\": \"Same\", \"confidence\": 0.9}\<newline>```''
     = Some ''{\"verdict\": \"Same\", \"confidence\": 0.9}''"
  by (simp add: fence_at_def is_space_def)

theorem parse_result_extraction_witness:
  "{e. \<exists>s. example_loads s = Inl e} = {JSONDecodeError}
   \<and> fenced ''Here is the result:\<newline>```json\<newline>{\"verdict\": \"Same\", \"confidence\": 0.9}\<newline>```''
        ''{\"verdict\": \"Same\", \"confidence\": 0.9}''
   \<and> parse_result example_loads
        ''Here is the result:\<newline>```json\<newline>{\"verdict\": \"Same\", \"confidence\": 0.9}\<newline>```''
      = (Inr (JObj [(''verdict'', JStr ''Same''), (''confidence'', JNum (9 / 10))]), [])"
proof -
  let ?answer = "''Here is the result:\<newline>```json\<newline>{\"verdict\": \"Same\", \"confidence\": 0.9}\<newline>```''"
  let ?c = "''{\"verdict\": \"Same\", \"confidence\": 0.9}''"
  have f: "fenced ?answer ?c"
    using example_answer_fence by (rule fence_search_sound)
  from parse_result_extraction [OF example_loads_errors, of ?answer] f
  obtain c where c: "fence_search ?answer = Some c"
    "parse_result example_loads ?answer
       = (case example_loads c of
            Inr v \<Rightarrow> (Inr v, [])
          | Inl e \<Rightarrow> (Inr (JObj []), [Failed_to_parse_JSON e]))"
    by blast
  from c(1) have "c = ?c" by (simp only: example_answer_fence option.inject)
  with c(2) have "parse_result example_loads ?answer
      = (Inr (JObj [(''verdict'', JStr ''Same''), (''confidence'', JNum (9 / 10))]), [])"
    by (simp add: example_loads_def)
  moreover have "{e. \<exists>s. example_loads s = Inl e} = {JSONDecodeError}"
  proof -
    have "example_loads [] = Inl JSONDecodeError" by (simp add: example_loads_def)
    with example_loads_errors show ?thesis by blast
  qed
  ultimately show ?thesis using f by blast
qed

text \<open>
  C8 as stated fails: with fences tagged \<^verbatim>\<open>json\<close> or untagged only, an answer whose
  dict sits in a fence tagged \<^verbatim>\<open>python\<close> and that has a brace elsewhere would go to
  the brace fallback and parse to nothing; the code takes the fenced dict.
\<close>

theorem parse_result_python_fence_counterexample:
  "parse_result example_loads ''```python\<newline>{\"a\": 1}\<newline>``` and {b}''
     = (Inr (JObj [(''a'', JNum 1)]), [])
   \<and> spec_parse_result example_loads ''```python\<newline>{\"a\": 1}\<newline>``` and {b}''
     = (Inr (JObj []), [Failed_to_parse_JSON JSONDecodeError])"
  by (simp add: parse_result_def spec_parse_result_def fence_at_def spec_fence_at_def
      brace_search_def loads_or_empty_def example_loads_def is_space_def)

section \<open>The conflict assembler\<close>


lemma dict_set_new_key:
  "k \<notin> set (map fst d) \<Longrightarrow> map fst (dict_set d k v) = map fst d @ [k]"
  by (induction d) auto

lemma enrich_loop_calls:
  assumes "enrich_and_collect_loop enrich enc m contents seen calls urls w = (result, calls', w')"
    and "distinct calls" and "set calls = seen" and "map fst contents = calls"
    and "[] \<notin> set calls"
  shows "distinct calls' \<and> [] \<notin> set calls' \<and> set calls' \<subseteq> seen \<union> set urls
     \<and> (\<forall>c. result = Inr c \<longrightarrow> map fst c = calls')"
  using assms
proof (induction urls arbitrary: contents seen calls w)
  case Nil
  then show ?case by auto
next
  case (Cons u urls)
  show ?case
  proof (cases "u \<in> seen \<or> u = []")
    case True
    with Cons.prems(1) have
      "enrich_and_collect_loop enrich enc m contents seen calls urls w = (result, calls', w')"
      by simp
    from Cons.IH [OF this Cons.prems(2-5)] show ?thesis by auto
  next
    case False
    obtain r w1 where step: "enrich u w = (r, w1)" by (cases "enrich u w")
    show ?thesis
    proof (cases r)
      case (Inl e)
      with False step Cons.prems show ?thesis by auto
    next
      case (Inr enriched)
      let ?contents = "dict_set contents u (url_contents enc m enriched)"
      from False step Inr Cons.prems(1) have run:
        "enrich_and_collect_loop enrich enc m ?contents (insert u seen) (calls @ [u]) urls w1
           = (result, calls', w')"
        by simp
      have d: "distinct (calls @ [u])" using False Cons.prems(2,3) by auto
      have s: "set (calls @ [u]) = insert u seen" using Cons.prems(3) by auto
      have k: "map fst ?contents = calls @ [u]"
        using False Cons.prems(3,4) by (simp add: dict_set_new_key)
      have n: "[] \<notin> set (calls @ [u])" using False Cons.prems(5) by auto
      from Cons.IH [OF run d s k n] show ?thesis by auto
    qed
  qed
qed

lemma strip_content_fields_copy: "fst (strip_content_fields e sets) = e"
  by (simp add: strip_content_fields_def Let_def)

lemma strip_all_copies: "fst (strip_all es sets) = es"
proof (induction es arbitrary: sets)
  case Nil
  then show ?case by simp
next
  case (Cons e es)
  obtain c1 sets1 where one: "strip_content_fields e sets = (c1, sets1)"
    by (cases "strip_content_fields e sets")
  obtain cs sets2 where rest: "strip_all es sets1 = (cs, sets2)"
    by (cases "strip_all es sets1")
  from one have "c1 = e" using strip_content_fields_copy [of e sets] by simp
  moreover from rest have "cs = es" using Cons.IH [of sets1] by simp
  ultimately show ?case using one rest by simp
qed

lemma collect_repos_urls:
  "collect_repos rs (aw, ar) = (aw', ar') \<Longrightarrow>
     aw' \<union> ar' = aw \<union> ar \<union> (\<lambda>r. case repo_url r of None \<Rightarrow> [] | Some x \<Rightarrow> x) ` set rs"
  by (induction rs arbitrary: aw ar) (auto simp: Let_def split: if_splits)

lemma strip_all_urls:
  "strip_all es (aw, ar) = (copies, aw', ar') \<Longrightarrow>
     aw' \<union> ar' = aw \<union> ar \<union> (\<Union>e\<in>set es. entry_urls e)"
proof (induction es arbitrary: aw ar copies aw' ar')
  case Nil
  then show ?case by simp
next
  case (Cons e es)
  obtain c1 aw1 ar1 where one: "strip_content_fields e (aw, ar) = (c1, aw1, ar1)"
    by (cases "strip_content_fields e (aw, ar)")
  obtain cs aw2 ar2 where rest: "strip_all es (aw1, ar1) = (cs, aw2, ar2)"
    by (cases "strip_all es (aw1, ar1)")
  from Cons.prems one rest have eq: "aw' = aw2" "ar' = ar2" by auto
  from one have "aw1 \<union> ar1 = aw \<union> ar \<union> entry_urls e"
    by (auto simp: strip_content_fields_def Let_def entry_urls_def
        dest!: collect_repos_urls split: option.splits)
  moreover from Cons.IH [OF rest] have "aw2 \<union> ar2 = aw1 \<union> ar1 \<union> (\<Union>e\<in>set es. entry_urls e)" .
  ultimately show ?case using eq by auto
qed


lemma build_full_conflict_links:
  "\<exists>disconnected remaining all_links.
     fst (strip_all (c_disconnected conflict) ({}, {})) = disconnected
     \<and> fst (strip_all (c_remaining conflict) (snd (strip_all (c_disconnected conflict) ({}, {})))) = remaining
     \<and> all_links = (\<Union>e\<in>set (c_disconnected conflict @ c_remaining conflict). entry_urls e)
     \<and> build_full_conflict enrich order enc conflict max_tokens w =
         (case enrich_and_collect_content enrich enc max_tokens (order all_links) w of
            (Inl e, calls, w') \<Rightarrow> (Inl e, calls, w')
          | (Inr webpage_contents, calls, w') \<Rightarrow>
              (Inr \<lparr>fc_disconnected = disconnected, fc_remaining = remaining,
                   fc_webpage_contents = webpage_contents\<rparr>, calls, w'))"
proof -
  obtain d aw1 ar1 where one: "strip_all (c_disconnected conflict) ({}, {}) = (d, aw1, ar1)"
    by (cases "strip_all (c_disconnected conflict) ({}, {})")
  obtain r aw2 ar2 where two: "strip_all (c_remaining conflict) (aw1, ar1) = (r, aw2, ar2)"
    by (cases "strip_all (c_remaining conflict) (aw1, ar1)")
  from strip_all_urls [OF one] strip_all_urls [OF two]
  have links: "aw2 \<union> ar2 = (\<Union>e\<in>set (c_disconnected conflict @ c_remaining conflict). entry_urls e)"
    by auto
  show ?thesis
    using one two links
    by (auto simp: build_full_conflict_def Let_def split: prod.splits sum.splits)
qed

text \<open>
  C3. Whatever the enricher does and in whatever order (even with repetitions) the set of
  links is enumerated, \<^verbatim>\<open>build_full_conflict\<close> invokes the enricher on pairwise
  different, non-empty URLs, all of them among the enumerated links of the entries; and
  when it returns, the keys of \<^verbatim>\<open>webpage_contents\<close> are exactly the URLs enriched,
  each once.
\<close>

theorem enrich_once_per_url:
  "case build_full_conflict enrich order enc conflict max_tokens w of
     (result, calls, w') \<Rightarrow>
       distinct calls \<and> [] \<notin> set calls
       \<and> set calls \<subseteq> set (order (\<Union>e\<in>set (c_disconnected conflict @ c_remaining conflict). entry_urls e))
       \<and> (\<forall>fc. result = Inr fc \<longrightarrow>
             map fst (fc_webpage_contents fc) = calls \<and> distinct (map fst (fc_webpage_contents fc)))"
proof -
  let ?links = "\<Union>e\<in>set (c_disconnected conflict @ c_remaining conflict). entry_urls e"
  obtain r calls w' where run:
    "enrich_and_collect_loop enrich enc max_tokens [] {} [] (order ?links) w = (r, calls, w')"
    by (cases "enrich_and_collect_loop enrich enc max_tokens [] {} [] (order ?links) w")
  from enrich_loop_calls [OF run]
  have inv: "distinct calls" "[] \<notin> set calls" "set calls \<subseteq> set (order ?links)"
    "\<forall>c. r = Inr c \<longrightarrow> map fst c = calls"
    by auto
  from build_full_conflict_links [of conflict enrich order enc max_tokens w]
  obtain d rm where built:
    "build_full_conflict enrich order enc conflict max_tokens w =
         (case enrich_and_collect_content enrich enc max_tokens (order ?links) w of
            (Inl e, calls, w') \<Rightarrow> (Inl e, calls, w')
          | (Inr webpage_contents, calls, w') \<Rightarrow>
              (Inr \<lparr>fc_disconnected = d, fc_remaining = rm,
                   fc_webpage_contents = webpage_contents\<rparr>, calls, w'))"
    by blast
  show ?thesis
  proof (cases r)
    case (Inl e)
    with run built inv show ?thesis by (simp add: enrich_and_collect_content_def)
  next
    case (Inr c)
    with run built inv show ?thesis by (simp add: enrich_and_collect_content_def)
  qed
qed

lemma example_build:
  "build_full_conflict example_enrich example_order length example_conflict 8000 0 =
     (Inr \<lparr>fc_disconnected = c_disconnected example_conflict,
           fc_remaining = c_remaining example_conflict,
           fc_webpage_contents = [(''https://github.com/a/b'', [(''Content'', Chunks [''some text''])])]\<rparr>,
      [''https://github.com/a/b''], 1)"
  by (simp add: build_full_conflict_def example_conflict_def strip_content_fields_def
      example_order_def enrich_and_collect_content_def example_enrich_def url_contents_def
      chunk_text_def split_def is_space_def Let_def)

theorem enrich_once_per_url_witness:
  "build_full_conflict example_enrich example_order length example_conflict 8000 0 =
     (Inr \<lparr>fc_disconnected = c_disconnected example_conflict,
           fc_remaining = c_remaining example_conflict,
           fc_webpage_contents = [(''https://github.com/a/b'', [(''Content'', Chunks [''some text''])])]\<rparr>,
      [''https://github.com/a/b''], 1)
   \<and> distinct [''https://github.com/a/b'']
   \<and> map fst [(''https://github.com/a/b'', [(''Content'', Chunks [''some text''])])]
       = [''https://github.com/a/b'']"
  using enrich_once_per_url [where enrich = example_enrich and order = example_order
      and enc = length and conflict = example_conflict and max_tokens = 8000 and w = 0]
  by (simp add: example_build)

text \<open>
  C5, as amended. The copies that \<^verbatim>\<open>build_full_conflict\<close> places into the output
  partitions are the input entries unchanged, in their order: the reference fields are
  read and kept, as the docstring of the function says (minimal metadata, with URLs).
\<close>

theorem partitions_unchanged:
  "\<forall>fc. fst (build_full_conflict enrich order enc conflict max_tokens w) = Inr fc \<longrightarrow>
      fc_disconnected fc = c_disconnected conflict \<and> fc_remaining fc = c_remaining conflict"
proof -
  from build_full_conflict_links [of conflict enrich order enc max_tokens w]
  show ?thesis
    by (auto simp: strip_all_copies split: prod.splits sum.splits)
qed

theorem partitions_unchanged_witness:
  "fst (build_full_conflict example_enrich example_order length example_conflict 8000 0)
     = Inr \<lparr>fc_disconnected = c_disconnected example_conflict,
           fc_remaining = c_remaining example_conflict,
           fc_webpage_contents = [(''https://github.com/a/b'', [(''Content'', Chunks [''some text''])])]\<rparr>
   \<and> map entry_webpage (c_disconnected example_conflict) = [Some [''https://github.com/a/b'']]"
  using partitions_unchanged [where enrich = example_enrich and order = example_order
      and enc = length and conflict = example_conflict and max_tokens = 8000 and w = 0]
  unfolding example_build by (simp add: example_conflict_def)

text \<open>
  C5 as stated fails: the output entry of the example still has its \<^verbatim>\<open>webpage\<close>
  list.
\<close>

theorem references_kept_counterexample:
  "case fst (build_full_conflict example_enrich example_order length example_conflict 8000 0) of
     Inl e \<Rightarrow> False
   | Inr fc \<Rightarrow> \<not> references_stripped fc
       \<and> map entry_webpage (fc_disconnected fc) = [Some [''https://github.com/a/b'']]"
  unfolding example_build by (simp add: references_stripped_def example_conflict_def)

section \<open>The message builder and the budget\<close>


lemma chat_messages_shape:
  "\<exists>evidence. chat_messages enc dumps dumps_indent str_body instruction_prompt conflict_data
         disconnected_preamble remaining_preamble max_tokens_per_chunk
     = \<lparr>msg_role = ''user'', msg_content = instruction_prompt\<rparr> # evidence @ [final_instruction]"
  by (auto simp: chat_messages_def Let_def split: option.splits list.splits)

lemma build_over_budget:
  "MAX_TOTAL_TOKENS < estimate_total_tokens enc
        (chat_messages enc dumps dumps_indent str_body instruction_prompt conflict_data
           disconnected_preamble remaining_preamble max_tokens_per_chunk)
   \<Longrightarrow> \<exists>text. build_chat_messages_with_disconnected enc dumps dumps_indent str_body
             instruction_prompt conflict_data disconnected_preamble remaining_preamble
             max_tokens_per_chunk = Inl (ValueError text)"
  by (simp add: build_chat_messages_with_disconnected_def Let_def)

lemma build_within_budget:
  "estimate_total_tokens enc
        (chat_messages enc dumps dumps_indent str_body instruction_prompt conflict_data
           disconnected_preamble remaining_preamble max_tokens_per_chunk) \<le> MAX_TOTAL_TOKENS
   \<Longrightarrow> build_chat_messages_with_disconnected enc dumps dumps_indent str_body
             instruction_prompt conflict_data disconnected_preamble remaining_preamble
             max_tokens_per_chunk
           = Inr (chat_messages enc dumps dumps_indent str_body instruction_prompt conflict_data
               disconnected_preamble remaining_preamble max_tokens_per_chunk)"
  by (simp add: build_chat_messages_with_disconnected_def Let_def)

text \<open>
  C1. When the token counts of the assembled messages sum to more than
  \<^verbatim>\<open>MAX_TOTAL_TOKENS\<close>, \<^verbatim>\<open>build_chat_messages_with_disconnected\<close> raises
  \<^verbatim>\<open>ValueError\<close> and returns no list; otherwise it returns the assembled list, in
  order. In \<^verbatim>\<open>prepare_messages_file\<close> an exception of the build is returned to the
  caller and ends the run, and the world is left as the enricher left it: nothing is
  written to the messages file for that key, from which alone the inference step takes
  what it sends to the oracle. In both prompt modes an over-budget conflict is such an
  exception.
\<close>

theorem budget_enforced:
  "(MAX_TOTAL_TOKENS < estimate_total_tokens enc
        (chat_messages enc dumps dumps_indent str_body instruction_prompt conflict_data
           disconnected_preamble remaining_preamble max_tokens_per_chunk)
      \<longrightarrow> (\<exists>text. build_chat_messages_with_disconnected enc dumps dumps_indent str_body
             instruction_prompt conflict_data disconnected_preamble remaining_preamble
             max_tokens_per_chunk = Inl (ValueError text)))
   \<and> (estimate_total_tokens enc
        (chat_messages enc dumps dumps_indent str_body instruction_prompt conflict_data
           disconnected_preamble remaining_preamble max_tokens_per_chunk) \<le> MAX_TOTAL_TOKENS
      \<longrightarrow> build_chat_messages_with_disconnected enc dumps dumps_indent str_body
             instruction_prompt conflict_data disconnected_preamble remaining_preamble
             max_tokens_per_chunk
           = Inr (chat_messages enc dumps dumps_indent str_body instruction_prompt conflict_data
               disconnected_preamble remaining_preamble max_tokens_per_chunk))
   \<and> (\<forall>fc calls w1 e.
        build_full_conflict enrich order (t_enc t) c 8000 w = (Inr fc, calls, w1)
        \<and> build_prompt_benchmarking t fc prompt_type = Inl e
      \<longrightarrow> prepare_conflict t enrich order writer messages_file_path prompt_type key c w
           = (Inl e, calls, w1)
          \<and> prepare_messages_file t enrich order writer messages_file_path prompt_type
               ((key, c) # conflicts) w = (Inl e, w1))
   \<and> (\<forall>fc instruction_prompt.
        t_templates t ''prompt_benchmarking_flattened_style'' = Some instruction_prompt
        \<and> MAX_TOTAL_TOKENS < estimate_total_tokens (t_enc t)
            (chat_messages (t_enc t) (t_dumps t) (t_dumps_indent t) (t_str_body t)
               instruction_prompt (as_conflict_data fc) ''The first software metadata_entry''
               ''The second software metadata_entry'' 8000)
      \<longrightarrow> (\<exists>text. build_prompt_benchmarking t fc ''flattened'' = Inl (ValueError text)))
   \<and> (\<forall>fc instruction_prompt.
        t_templates t ''prompt_benchmarking_chat_style'' = Some instruction_prompt
        \<and> MAX_TOTAL_TOKENS < estimate_total_tokens (t_enc t)
            (chat_messages (t_enc t) (t_dumps t) (t_dumps_indent t) (t_str_body t)
               instruction_prompt (as_conflict_data (arrange_partitions fc))
               ''The first software metadata_entry'' ''The second software metadata_entry'' 8000)
      \<longrightarrow> (\<exists>text. build_prompt_benchmarking t fc ''chat'' = Inl (ValueError text)))"
proof -
  have c1: "MAX_TOTAL_TOKENS < estimate_total_tokens enc
        (chat_messages enc dumps dumps_indent str_body instruction_prompt conflict_data
           disconnected_preamble remaining_preamble max_tokens_per_chunk)
      \<longrightarrow> (\<exists>text. build_chat_messages_with_disconnected enc dumps dumps_indent str_body
             instruction_prompt conflict_data disconnected_preamble remaining_preamble
             max_tokens_per_chunk = Inl (ValueError text))"
    using build_over_budget by blast
  have c2: "estimate_total_tokens enc
        (chat_messages enc dumps dumps_indent str_body instruction_prompt conflict_data
           disconnected_preamble remaining_preamble max_tokens_per_chunk) \<le> MAX_TOTAL_TOKENS
      \<longrightarrow> build_chat_messages_with_disconnected enc dumps dumps_indent str_body
             instruction_prompt conflict_data disconnected_preamble remaining_preamble
             max_tokens_per_chunk
           = Inr (chat_messages enc dumps dumps_indent str_body instruction_prompt conflict_data
               disconnected_preamble remaining_preamble max_tokens_per_chunk)"
    using build_within_budget by blast
  have c3: "\<forall>fc calls w1 e.
        build_full_conflict enrich order (t_enc t) c 8000 w = (Inr fc, calls, w1)
        \<and> build_prompt_benchmarking t fc prompt_type = Inl e
      \<longrightarrow> prepare_conflict t enrich order writer messages_file_path prompt_type key c w
           = (Inl e, calls, w1)
          \<and> prepare_messages_file t enrich order writer messages_file_path prompt_type
               ((key, c) # conflicts) w = (Inl e, w1)"
    by (simp add: prepare_conflict_def)
  have c4: "\<forall>fc instruction_prompt.
        t_templates t ''prompt_benchmarking_flattened_style'' = Some instruction_prompt
        \<and> MAX_TOTAL_TOKENS < estimate_total_tokens (t_enc t)
            (chat_messages (t_enc t) (t_dumps t) (t_dumps_indent t) (t_str_body t)
               instruction_prompt (as_conflict_data fc) ''The first software metadata_entry''
               ''The second software metadata_entry'' 8000)
      \<longrightarrow> (\<exists>text. build_prompt_benchmarking t fc ''flattened'' = Inl (ValueError text))"
  proof (intro allI impI, elim conjE)
    fix fc instruction_prompt
    assume tpl: "t_templates t ''prompt_benchmarking_flattened_style'' = Some instruction_prompt"
    assume "MAX_TOTAL_TOKENS < estimate_total_tokens (t_enc t)
            (chat_messages (t_enc t) (t_dumps t) (t_dumps_indent t) (t_str_body t)
               instruction_prompt (as_conflict_data fc) ''The first software metadata_entry''
               ''The second software metadata_entry'' 8000)"
    from build_over_budget [OF this] tpl
    show "\<exists>text. build_prompt_benchmarking t fc ''flattened'' = Inl (ValueError text)"
      by (auto simp: build_prompt_benchmarking_def)
  qed
  have c5: "\<forall>fc instruction_prompt.
        t_templates t ''prompt_benchmarking_chat_style'' = Some instruction_prompt
        \<and> MAX_TOTAL_TOKENS < estimate_total_tokens (t_enc t)
            (chat_messages (t_enc t) (t_dumps t) (t_dumps_indent t) (t_str_body t)
               instruction_prompt (as_conflict_data (arrange_partitions fc))
               ''The first software metadata_entry'' ''The second software metadata_entry'' 8000)
      \<longrightarrow> (\<exists>text. build_prompt_benchmarking t fc ''chat'' = Inl (ValueError text))"
  proof (intro allI impI, elim conjE)
    fix fc instruction_prompt
    assume tpl: "t_templates t ''prompt_benchmarking_chat_style'' = Some instruction_prompt"
    assume "MAX_TOTAL_TOKENS < estimate_total_tokens (t_enc t)
            (chat_messages (t_enc t) (t_dumps t) (t_dumps_indent t) (t_str_body t)
               instruction_prompt (as_conflict_data (arrange_partitions fc))
               ''The first software metadata_entry'' ''The second software metadata_entry'' 8000)"
    from build_over_budget [OF this] tpl
    show "\<exists>text. build_prompt_benchmarking t fc ''chat'' = Inl (ValueError text)"
      by (auto simp: build_prompt_benchmarking_def)
  qed
  show ?thesis
    by (rule conjI [OF c1 conjI [OF c2 conjI [OF c3 conjI [OF c4 c5]]]])
qed


lemma heavy_estimate:
  "estimate_total_tokens (\<lambda>s. 70000) messages = 70000 * length messages"
  by (induction messages) (auto simp: estimate_total_tokens_def)

lemma heavy_over_budget:
  "MAX_TOTAL_TOKENS < estimate_total_tokens (t_enc heavy_tools)
     (chat_messages (t_enc heavy_tools) dumps dumps_indent str_body instruction_prompt
        conflict_data disconnected_preamble remaining_preamble max_tokens_per_chunk)"
proof -
  obtain evidence where
    "chat_messages (t_enc heavy_tools) dumps dumps_indent str_body instruction_prompt
        conflict_data disconnected_preamble remaining_preamble max_tokens_per_chunk
     = \<lparr>msg_role = ''user'', msg_content = instruction_prompt\<rparr> # evidence @ [final_instruction]"
    using chat_messages_shape by blast
  then show ?thesis
    by (simp add: heavy_tools_def heavy_estimate MAX_TOTAL_TOKENS_def)
qed

lemma example_page_build:
  "build_full_conflict example_page example_order enc example_conflict 8000 [] =
     (Inr \<lparr>fc_disconnected = c_disconnected example_conflict,
           fc_remaining = c_remaining example_conflict,
           fc_webpage_contents =
             [(''https://github.com/a/b'', [(''Content'', Chunks (chunk_text enc ''some text'' 8000))])]\<rparr>,
      [''https://github.com/a/b''], [])"
  by (simp add: build_full_conflict_def example_conflict_def strip_content_fields_def
      example_order_def enrich_and_collect_content_def example_page_def url_contents_def Let_def)

theorem budget_enforced_witness:
  "MAX_TOTAL_TOKENS < estimate_total_tokens (t_enc heavy_tools)
      (chat_messages (t_enc heavy_tools) entry_fields (t_dumps_indent heavy_tools) (t_str_body heavy_tools)
         ''Compare the entries.''
         \<lparr>cd_remaining = None, cd_disconnected = None, cd_webpage_contents = None\<rparr>
         ''first'' ''second'' 8000)
   \<and> (\<exists>text. build_chat_messages_with_disconnected (t_enc heavy_tools) entry_fields
         (t_dumps_indent heavy_tools) (t_str_body heavy_tools) ''Compare the entries.''
         \<lparr>cd_remaining = None, cd_disconnected = None, cd_webpage_contents = None\<rparr>
         ''first'' ''second'' 8000 = Inl (ValueError text))
   \<and> estimate_total_tokens length
        [\<lparr>msg_role = ''user'', msg_content = ''Compare the entries.''\<rparr>, final_instruction]
       \<le> MAX_TOTAL_TOKENS
   \<and> build_chat_messages_with_disconnected length entry_fields
         (t_dumps_indent heavy_tools) (t_str_body heavy_tools) ''Compare the entries.''
         \<lparr>cd_remaining = None, cd_disconnected = None, cd_webpage_contents = None\<rparr>
         ''first'' ''second'' 8000
       = Inr [\<lparr>msg_role = ''user'', msg_content = ''Compare the entries.''\<rparr>, final_instruction]
   \<and> (\<exists>text. prepare_messages_file heavy_tools example_page example_order example_write
         ''messages.jsonl'' ''chat'' [(''caseA'', example_conflict)] []
       = (Inl (ValueError text), []))"
proof -
  let ?cd = "\<lparr>cd_remaining = None, cd_disconnected = None, cd_webpage_contents = None\<rparr> :: string conflict_data"
  let ?fc = "\<lparr>fc_disconnected = c_disconnected example_conflict,
           fc_remaining = c_remaining example_conflict,
           fc_webpage_contents =
             [(''https://github.com/a/b'',
               [(''Content'', Chunks (chunk_text (t_enc heavy_tools) ''some text'' 8000))])]\<rparr>"
  note heavy = budget_enforced [where enc = "t_enc heavy_tools" and dumps = entry_fields
      and dumps_indent = "t_dumps_indent heavy_tools" and str_body = "t_str_body heavy_tools"
      and instruction_prompt = "''Compare the entries.''" and conflict_data = ?cd
      and disconnected_preamble = "''first''" and remaining_preamble = "''second''"
      and max_tokens_per_chunk = 8000
      and t = heavy_tools and enrich = example_page and order = example_order
      and writer = example_write and messages_file_path = "''messages.jsonl''"
      and prompt_type = "''chat''" and key = "''caseA''" and c = example_conflict
      and conflicts = "[]" and w = "[]"]
  note light = budget_enforced [where enc = length and dumps = entry_fields
      and dumps_indent = "t_dumps_indent heavy_tools" and str_body = "t_str_body heavy_tools"
      and instruction_prompt = "''Compare the entries.''" and conflict_data = ?cd
      and disconnected_preamble = "''first''" and remaining_preamble = "''second''"
      and max_tokens_per_chunk = 8000
      and t = heavy_tools and enrich = example_page and order = example_order
      and writer = example_write and messages_file_path = "''messages.jsonl''"
      and prompt_type = "''chat''" and key = "''caseA''" and c = example_conflict
      and conflicts = "[]" and w = "[]"]
  have over: "MAX_TOTAL_TOKENS < estimate_total_tokens (t_enc heavy_tools)
      (chat_messages (t_enc heavy_tools) entry_fields (t_dumps_indent heavy_tools) (t_str_body heavy_tools)
         ''Compare the entries.'' ?cd ''first'' ''second'' 8000)"
    by (rule heavy_over_budget)
  with heavy have a: "\<exists>text. build_chat_messages_with_disconnected (t_enc heavy_tools) entry_fields
         (t_dumps_indent heavy_tools) (t_str_body heavy_tools) ''Compare the entries.'' ?cd
         ''first'' ''second'' 8000 = Inl (ValueError text)"
    by blast
  have msgs: "chat_messages length entry_fields (t_dumps_indent heavy_tools) (t_str_body heavy_tools)
         ''Compare the entries.'' ?cd ''first'' ''second'' 8000
       = [\<lparr>msg_role = ''user'', msg_content = ''Compare the entries.''\<rparr>, final_instruction]"
    by (simp add: chat_messages_def)
  have under: "estimate_total_tokens length
        [\<lparr>msg_role = ''user'', msg_content = ''Compare the entries.''\<rparr>, final_instruction]
       \<le> MAX_TOTAL_TOKENS"
    by (simp add: estimate_total_tokens_def final_instruction_def MAX_TOTAL_TOKENS_def)
  with light msgs have b: "build_chat_messages_with_disconnected length entry_fields
         (t_dumps_indent heavy_tools) (t_str_body heavy_tools) ''Compare the entries.'' ?cd
         ''first'' ''second'' 8000
       = Inr [\<lparr>msg_role = ''user'', msg_content = ''Compare the entries.''\<rparr>, final_instruction]"
    by simp
  have tpl: "t_templates heavy_tools ''prompt_benchmarking_chat_style'' = Some ''Compare the entries.''"
    by (simp add: heavy_tools_def)
  have "MAX_TOTAL_TOKENS < estimate_total_tokens (t_enc heavy_tools)
            (chat_messages (t_enc heavy_tools) (t_dumps heavy_tools) (t_dumps_indent heavy_tools)
               (t_str_body heavy_tools) ''Compare the entries.''
               (as_conflict_data (arrange_partitions ?fc))
               ''The first software metadata_entry'' ''The second software metadata_entry'' 8000)"
    by (rule heavy_over_budget)
  with heavy tpl obtain reason where
    "build_prompt_benchmarking heavy_tools ?fc ''chat'' = Inl (ValueError reason)"
    by blast
  with heavy example_page_build [of "t_enc heavy_tools"]
  have c: "prepare_messages_file heavy_tools example_page example_order example_write
         ''messages.jsonl'' ''chat'' [(''caseA'', example_conflict)] []
       = (Inl (ValueError reason), [])"
    by blast
  from over a under b c show ?thesis by blast
qed

section \<open>The link enricher\<close>


lemma str_nat_404: "str_nat 404 = ''404''"
  by code_simp

text \<open>
  C4. The claim that \<^verbatim>\<open>enrich_link\<close> never raises does not hold of the GitLab
  branch, the one branch that calls its helper outside a \<^verbatim>\<open>try\<close>: a GitLab URL
  with a single path segment makes \<^verbatim>\<open>parse_gitlab_repo_url\<close> raise
  \<^verbatim>\<open>ValueError\<close>, and a project the API answers with 404 makes
  \<^verbatim>\<open>get_gitlab_repo_metadata\<close> raise \<^verbatim>\<open>Exception\<close>; both leave
  \<^verbatim>\<open>enrich_link\<close> as they are, with no record returned.
\<close>

theorem enrich_link_gitlab_raises:
  "enrich_link example_web ''https://gitlab.com/bioinfo-group'' 0
     = (Inl (ValueError ''Invalid GitLab repository URL.''), 0)
   \<and> enrich_link example_web ''https://gitlab.com/group/project'' 0
     = (Inl (Exception ''Failed to get metadata. Status code: 404, Response: ''), 1)"
  by (simp add: enrich_link_def first_chain_def get_gitlab_repo_metadata_def
      parse_gitlab_repo_url_def gitlab_at_def strip_scheme_def two_segments_def segment_def
      example_web_def blank_link_def str_nat_404)


section \<open>The oracle clients\<close>
lemma wait_first: "wait_exponential 1 2 10 (Suc 0) = 2"
  by (simp add: wait_exponential_def)

lemma wait_second: "wait_exponential 1 2 10 (Suc (Suc 0)) = 2"
  by (simp add: wait_exponential_def)

lemma wait_values: "wait_exponential 1 2 10 ` {1 ..< 1 + (3 - 1)} = {2}"
proof -
  have "{1 ..< 1 + (3 - 1)} = {Suc 0, Suc (Suc 0)}" by auto
  then show ?thesis by (simp add: wait_first wait_second)
qed

lemma retry_three:
  "retry 3 (Suc 0) wait sleep f w =
     (case f w of
        (Inr v, posted, w1) \<Rightarrow>
          \<lparr>call_result = Inr v, call_posts = (if posted then 1 else 0), call_waits = [],
           call_world = w1\<rparr>
      | (Inl e, posted, w1) \<Rightarrow>
          (let rest = retry 2 2 wait sleep f (sleep (wait (Suc 0)) w1)
           in rest\<lparr>call_posts := (if posted then 1 else 0) + call_posts rest,
                   call_waits := wait (Suc 0) # call_waits rest\<rparr>))"
  by (simp add: numeral_3_eq_3 numeral_2_eq_2 Let_def split: prod.splits sum.splits)

lemma retry_bounds:
  "call_posts (retry left n wait sleep f w) \<le> left
   \<and> length (call_waits (retry left n wait sleep f w)) \<le> left - 1
   \<and> set (call_waits (retry left n wait sleep f w)) \<subseteq> wait ` {n ..< n + (left - 1)}"
proof (induction left arbitrary: n w)
  case 0
  then show ?case by simp
next
  case (Suc left)
  obtain r posted w1 where step: "f w = (r, posted, w1)" by (cases "f w")
  show ?case
  proof (cases r)
    case (Inr v)
    with step show ?thesis by simp
  next
    case (Inl e)
    show ?thesis
    proof (cases "left = 0")
      case True
      with step Inl show ?thesis by simp
    next
      case False
      from Suc.IH [of "n + 1" "sleep (wait n) w1"] False step Inl
      show ?thesis by (auto simp: Let_def)
    qed
  qed
qed


lemma retry_all_raise:
  assumes "\<forall>w. \<exists>e w1. f w = (Inl e, True, w1)"
  shows "0 < left \<Longrightarrow>
     call_result (retry left n wait sleep f w) = Inl RetryError
     \<and> call_posts (retry left n wait sleep f w) = left
     \<and> call_waits (retry left n wait sleep f w) = map wait [n ..< n + (left - 1)]"
proof (induction left arbitrary: n w)
  case 0
  then show ?case by simp
next
  case (Suc left)
  from assms obtain e w1 where step: "f w = (Inl e, True, w1)" by blast
  show ?case
  proof (cases "left = 0")
    case True
    with step show ?thesis by simp
  next
    case False
    then have "0 < left" by simp
    from Suc.IH [OF this, of "n + 1" "sleep (wait n) w1"] False step
    show ?thesis by (simp add: Let_def upt_rec [of n])
  qed
qed

lemma openrouter_body_posts:
  "OR_API_KEY nw = Some k \<Longrightarrow> requests_post nw OR_API_URL model messages w = (Inl e, w1)
   \<Longrightarrow> query_openrouter_body nw messages model w = (Inl e, True, w1)"
  by (simp add: query_openrouter_body_def)

lemma openrouter_bounds:
  "call_posts (query_openrouter nw messages model w) \<le> 3
   \<and> length (call_waits (query_openrouter nw messages model w)) \<le> 2
   \<and> set (call_waits (query_openrouter nw messages model w)) \<subseteq> {2}"
proof -
  let ?wait = "wait_exponential 1 2 10"
  have "call_posts (query_openrouter nw messages model w) \<le> 3
    \<and> length (call_waits (query_openrouter nw messages model w)) \<le> 3 - 1
    \<and> set (call_waits (query_openrouter nw messages model w)) \<subseteq> ?wait ` {1 ..< 1 + (3 - 1)}"
    unfolding query_openrouter_def by (rule retry_bounds)
  then show ?thesis unfolding wait_values by simp
qed

lemma openrouter_all_raise:
  assumes "\<forall>w'. \<exists>e w''. requests_post nw OR_API_URL model messages w' = (Inl e, w'')"
    and "OR_API_KEY nw \<noteq> None"
  shows "call_result (query_openrouter nw messages model w) = Inl RetryError
     \<and> call_posts (query_openrouter nw messages model w) = 3
     \<and> call_waits (query_openrouter nw messages model w) = [2, 2]"
proof -
  from assms(2) obtain k where k: "OR_API_KEY nw = Some k" by auto
  have "\<forall>w. \<exists>e w1. query_openrouter_body nw messages model w = (Inl e, True, w1)"
    using assms(1) openrouter_body_posts [OF k] by metis
  from retry_all_raise [OF this, of 3 1 "wait_exponential 1 2 10" "net_sleep nw" w]
  have "call_result (query_openrouter nw messages model w) = Inl RetryError
     \<and> call_posts (query_openrouter nw messages model w) = 3
     \<and> call_waits (query_openrouter nw messages model w) = map (wait_exponential 1 2 10) [1 ..< 1 + (3 - 1)]"
    unfolding query_openrouter_def by simp
  moreover have "map (wait_exponential 1 2 10) [1 ..< 1 + (3 - 1)] = [2, 2]"
    by (simp add: upt_rec [of "Suc 0"] upt_rec [of "Suc (Suc 0)"] wait_first wait_second)
  ultimately show ?thesis by simp
qed

lemma read_answer_none:
  "parse body = Inr j \<Longrightarrow> chat_content j = None \<Longrightarrow> read_answer parse provider_of body = Inr ([], [])"
  by (simp add: read_answer_def)

lemma openrouter_empty:
  assumes "OR_API_KEY nw = Some k"
    and "requests_post nw OR_API_URL model messages w = (Inr r, w1)"
    and "status_code r \<noteq> 200 \<or> (\<exists>j. body_json nw (resp_text r) = Inr j \<and> chat_content j = None)"
  shows "query_openrouter nw messages model w =
     \<lparr>call_result = Inr ([], []), call_posts = 1, call_waits = [], call_world = w1\<rparr>"
proof -
  have "query_openrouter_body nw messages model w = (Inr ([], []), True, w1)"
    using assms by (auto simp: query_openrouter_body_def read_answer_none)
  then show ?thesis by (simp add: query_openrouter_def retry_three)
qed

lemma huggingface_new_empty:
  assumes "HF_API_KEY nw = Some k"
    and "requests_post nw (''https://router.huggingface.co/'' @ provider @ ''/v1/chat/completions'')
           model messages w = (Inr r, w1)"
    and "status_code r \<noteq> 200 \<or> (\<exists>j. body_json nw (resp_text r) = Inr j \<and> chat_content j = None)"
  shows "query_huggingface_new nw messages model provider w =
     \<lparr>call_result = Inr ([], []), call_posts = 1, call_waits = [], call_world = w1\<rparr>"
  using assms by (auto simp: query_huggingface_new_def Let_def read_answer_none)

lemma huggingface_new_once:
  "call_posts (query_huggingface_new nw messages model provider w) \<le> 1
   \<and> call_waits (query_huggingface_new nw messages model provider w) = []"
  by (simp add: query_huggingface_new_def Let_def split: option.splits prod.splits sum.splits)

lemma huggingface_once:
  "call_posts (query_huggingface nw messages model w) \<le> 1
   \<and> call_waits (query_huggingface nw messages model w) = []"
  by (simp add: query_huggingface_def Let_def split: option.splits prod.splits sum.splits)

lemma huggingface_none:
  assumes "HF_API_KEY nw = Some k"
    and "requests_post nw (HF_API_URL @ ''/'' @ model) model messages w = (Inr r, w1)"
    and "status_code r \<noteq> 200" and "body_json nw (resp_text r) = Inr j"
  shows "query_huggingface nw messages model w =
     \<lparr>call_result = Inr None, call_posts = 1, call_waits = [], call_world = w1\<rparr>"
  using assms by (simp add: query_huggingface_def Let_def)

text \<open>
  What the three clients do. Only \<^verbatim>\<open>query_openrouter\<close> retries: it posts at most three times,
  sleeps 2 seconds after a failed attempt (the exponential wait, clamped to its floor),
  and when every attempt raises it ends in \<^verbatim>\<open>RetryError\<close> after three posts and two
  waits. \<^verbatim>\<open>query_huggingface_new\<close> and \<^verbatim>\<open>query_huggingface\<close> post at most once
  and never wait. On a response that is not a success, and on a success whose JSON body
  holds no answer, \<^verbatim>\<open>query_openrouter\<close> and \<^verbatim>\<open>query_huggingface_new\<close> return the
  empty answer with empty metadata after one post; on a response that is not a success
  and has a JSON body, \<^verbatim>\<open>query_huggingface\<close> returns \<^verbatim>\<open>None\<close>.
\<close>

lemma oracle_clients_retry_and_fallback:
  "call_posts (query_openrouter nw messages model w) \<le> 3
   \<and> length (call_waits (query_openrouter nw messages model w)) \<le> 2
   \<and> set (call_waits (query_openrouter nw messages model w)) \<subseteq> {2}
   \<and> ((\<forall>w'. \<exists>e w''. requests_post nw OR_API_URL model messages w' = (Inl e, w''))
        \<and> OR_API_KEY nw \<noteq> None
      \<longrightarrow> call_result (query_openrouter nw messages model w) = Inl RetryError
          \<and> call_posts (query_openrouter nw messages model w) = 3
          \<and> call_waits (query_openrouter nw messages model w) = [2, 2])
   \<and> call_posts (query_huggingface_new nw messages model provider w) \<le> 1
   \<and> call_waits (query_huggingface_new nw messages model provider w) = []
   \<and> call_posts (query_huggingface nw messages model w) \<le> 1
   \<and> call_waits (query_huggingface nw messages model w) = []
   \<and> (\<forall>k r w1.
        OR_API_KEY nw = Some k
        \<and> requests_post nw OR_API_URL model messages w = (Inr r, w1)
        \<and> (status_code r \<noteq> 200
             \<or> (\<exists>j. body_json nw (resp_text r) = Inr j \<and> chat_content j = None))
      \<longrightarrow> query_openrouter nw messages model w =
            \<lparr>call_result = Inr ([], []), call_posts = 1, call_waits = [], call_world = w1\<rparr>)
   \<and> (\<forall>k r w1.
        HF_API_KEY nw = Some k
        \<and> requests_post nw (''https://router.huggingface.co/'' @ provider @ ''/v1/chat/completions'')
             model messages w = (Inr r, w1)
        \<and> (status_code r \<noteq> 200
             \<or> (\<exists>j. body_json nw (resp_text r) = Inr j \<and> chat_content j = None))
      \<longrightarrow> query_huggingface_new nw messages model provider w =
            \<lparr>call_result = Inr ([], []), call_posts = 1, call_waits = [], call_world = w1\<rparr>)
   \<and> (\<forall>k r w1 j.
        HF_API_KEY nw = Some k
        \<and> requests_post nw (HF_API_URL @ ''/'' @ model) model messages w = (Inr r, w1)
        \<and> status_code r \<noteq> 200 \<and> body_json nw (resp_text r) = Inr j
      \<longrightarrow> query_huggingface nw messages model w =
            \<lparr>call_result = Inr None, call_posts = 1, call_waits = [], call_world = w1\<rparr>)"
proof -
  note b = openrouter_bounds [of nw messages model w]
  have r: "(\<forall>w'. \<exists>e w''. requests_post nw OR_API_URL model messages w' = (Inl e, w''))
        \<and> OR_API_KEY nw \<noteq> None
      \<longrightarrow> call_result (query_openrouter nw messages model w) = Inl RetryError
          \<and> call_posts (query_openrouter nw messages model w) = 3
          \<and> call_waits (query_openrouter nw messages model w) = [2, 2]"
    using openrouter_all_raise [of nw model messages w] by blast
  note h1 = huggingface_new_once [of nw messages model provider w]
  note h2 = huggingface_once [of nw messages model w]
  have e1: "\<forall>k r w1.
        OR_API_KEY nw = Some k
        \<and> requests_post nw OR_API_URL model messages w = (Inr r, w1)
        \<and> (status_code r \<noteq> 200
             \<or> (\<exists>j. body_json nw (resp_text r) = Inr j \<and> chat_content j = None))
      \<longrightarrow> query_openrouter nw messages model w =
            \<lparr>call_result = Inr ([], []), call_posts = 1, call_waits = [], call_world = w1\<rparr>"
    using openrouter_empty [of nw _ model messages w] by blast
  have e2: "\<forall>k r w1.
        HF_API_KEY nw = Some k
        \<and> requests_post nw (''https://router.huggingface.co/'' @ provider @ ''/v1/chat/completions'')
             model messages w = (Inr r, w1)
        \<and> (status_code r \<noteq> 200
             \<or> (\<exists>j. body_json nw (resp_text r) = Inr j \<and> chat_content j = None))
      \<longrightarrow> query_huggingface_new nw messages model provider w =
            \<lparr>call_result = Inr ([], []), call_posts = 1, call_waits = [], call_world = w1\<rparr>"
    using huggingface_new_empty [of nw _ provider model messages w] by blast
  have e3: "\<forall>k r w1 j.
        HF_API_KEY nw = Some k
        \<and> requests_post nw (HF_API_URL @ ''/'' @ model) model messages w = (Inr r, w1)
        \<and> status_code r \<noteq> 200 \<and> body_json nw (resp_text r) = Inr j
      \<longrightarrow> query_huggingface nw messages model w =
            \<lparr>call_result = Inr None, call_posts = 1, call_waits = [], call_world = w1\<rparr>"
    using huggingface_none [of nw _ model messages w] by blast
  from b r h1 h2 e1 e2 e3 show ?thesis by (intro conjI) (elim conjE, assumption)+
qed

lemma oracle_clients_at_examples:
  "query_openrouter down_net [''m''] ''model'' 0
     = \<lparr>call_result = Inl RetryError, call_posts = 3, call_waits = [2, 2], call_world = 4\<rparr>
   \<and> query_openrouter error_net [''m''] ''model'' 0
     = \<lparr>call_result = Inr ([], []), call_posts = 1, call_waits = [], call_world = 0\<rparr>
   \<and> query_huggingface_new error_net [''m''] ''model'' ''together'' 0
     = \<lparr>call_result = Inr ([], []), call_posts = 1, call_waits = [], call_world = 0\<rparr>
   \<and> query_huggingface error_net [''m''] ''model'' 0
     = \<lparr>call_result = Inr None, call_posts = 1, call_waits = [], call_world = 0\<rparr>"
proof -
  note down = oracle_clients_retry_and_fallback [of down_net "[''m'']" "''model''" 0 "''together''"]
  note err = oracle_clients_retry_and_fallback [of error_net "[''m'']" "''model''" 0 "''together''"]
  have "\<forall>w'. \<exists>e w''. requests_post down_net OR_API_URL ''model'' [''m''] w' = (Inl e, w'')"
    by (simp add: down_net_def)
  moreover have "OR_API_KEY down_net \<noteq> None" by (simp add: down_net_def)
  ultimately have d: "call_result (query_openrouter down_net [''m''] ''model'' 0) = Inl RetryError"
    "call_posts (query_openrouter down_net [''m''] ''model'' 0) = 3"
    "call_waits (query_openrouter down_net [''m''] ''model'' 0) = [2, 2]"
    using down by blast+
  have w: "call_world (query_openrouter down_net [''m''] ''model'' 0) = 4"
    by (simp add: query_openrouter_def retry_three query_openrouter_body_def down_net_def
        numeral_2_eq_2 wait_first wait_second)
  have first: "query_openrouter down_net [''m''] ''model'' 0
     = \<lparr>call_result = Inl RetryError, call_posts = 3, call_waits = [2, 2], call_world = 4\<rparr>"
    using d w by (cases "query_openrouter down_net [''m''] ''model'' 0") simp
  have keys: "OR_API_KEY error_net = Some ''sk-or-0000''" "HF_API_KEY error_net = Some ''hf_0000''"
    by (simp_all add: error_net_def down_net_def)
  have post: "\<And>u. requests_post error_net u ''model'' [''m''] 0
      = (Inr \<lparr>status_code = 500, resp_text = ''{}''\<rparr>, 0)"
    by (simp add: error_net_def)
  have st: "status_code \<lparr>status_code = 500, resp_text = ''{}''\<rparr> \<noteq> 200" by simp
  have js: "body_json error_net (resp_text \<lparr>status_code = 500, resp_text = ''{}''\<rparr>) = Inr (JObj [])"
    by (simp add: error_net_def)
  from err keys post st js show ?thesis using first by blast
qed

text \<open>
  C9. The claim does not hold of the two Hugging Face clients, which miss what
  \<^verbatim>\<open>query_openrouter\<close> beside them does and what their own log line
  \<^verbatim>\<open>API response was empty after 3 attempts.\<close> says. When \<^verbatim>\<open>requests.post\<close> raises,
  \<^verbatim>\<open>query_huggingface_new\<close> and \<^verbatim>\<open>query_huggingface\<close> have posted once, have not
  waited, and pass the exception on, where \<^verbatim>\<open>query_openrouter\<close> posts three times
  with two waits. On an error response \<^verbatim>\<open>query_huggingface\<close> returns \<^verbatim>\<open>None\<close>,
  where \<^verbatim>\<open>query_openrouter\<close> returns the empty answer with empty metadata.
\<close>

theorem huggingface_clients_single_attempt:
  "query_huggingface_new down_net [''m''] ''model'' ''together'' 0
     = \<lparr>call_result = Inl RequestException, call_posts = 1, call_waits = [], call_world = 0\<rparr>
   \<and> query_huggingface down_net [''m''] ''model'' 0
     = \<lparr>call_result = Inl RequestException, call_posts = 1, call_waits = [], call_world = 0\<rparr>
   \<and> query_huggingface error_net [''m''] ''model'' 0
     = \<lparr>call_result = Inr None, call_posts = 1, call_waits = [], call_world = 0\<rparr>
   \<and> query_openrouter down_net [''m''] ''model'' 0
     = \<lparr>call_result = Inl RetryError, call_posts = 3, call_waits = [2, 2], call_world = 4\<rparr>
   \<and> query_openrouter error_net [''m''] ''model'' 0
     = \<lparr>call_result = Inr ([], []), call_posts = 1, call_waits = [], call_world = 0\<rparr>"
proof -
  have hf: "query_huggingface_new down_net [''m''] ''model'' ''together'' 0
     = \<lparr>call_result = Inl RequestException, call_posts = 1, call_waits = [], call_world = 0\<rparr>"
    "query_huggingface down_net [''m''] ''model'' 0
     = \<lparr>call_result = Inl RequestException, call_posts = 1, call_waits = [], call_world = 0\<rparr>"
    "query_huggingface error_net [''m''] ''model'' 0
     = \<lparr>call_result = Inr None, call_posts = 1, call_waits = [], call_world = 0\<rparr>"
    by (simp_all add: query_huggingface_new_def query_huggingface_def down_net_def error_net_def
        generated_text_def)
  from hf oracle_clients_at_examples show ?thesis by blast
qed

end
